theory Spec2Isabelle
  imports Complex_Main "HOL-Library.Char_ord" "HOL-Library.List_Lexorder" "HOL-Library.Log_Nat"
begin

section \<open>QueueCTL: the job store of \<open>src/queue-manager.js\<close>\<close>

text \<open>
  The store is the JSON array of \<open>jobs.json\<close>. Every public method of
  \<open>QueueManager\<close> takes the file lock, reads the whole array, mutates it in memory
  and writes it back, so a method is modelled as a function from the array read to the
  array written (and the value returned or the error thrown). A method writes as its
  last step, so one that throws (a result \<open>Inl\<close>) leaves the file as it was. The lock file
  and I/O failures are outside the model.

  A timestamp field holds the string \<open>toISOString()\<close> returned for some time value. The
  model keeps the time value, in milliseconds since the epoch, and renders it (\<open>iso\<close>)
  where the source compares the strings. One clock reading \<open>now\<close> is passed to each
  method; it is a time value, an integer of magnitude at most \<open>8.64e15\<close>.
\<close>

subsection \<open>Data model\<close>

type_synonym timestamp = int

datatype job_state = Pending | Processing | Failed | Completed | Dead | Cancelled

record job =
  job_id :: string
  command :: string
  state :: job_state
  attempts :: nat
  max_retries :: int
  priority :: int
  timeout :: int
  created_at :: timestamp
  updated_at :: timestamp
  next_retry_at :: "timestamp option"
  error :: "string option"
  locked_by :: "string option"
  locked_at :: "timestamp option"

text \<open>The argument of \<open>enqueue\<close>: every field but the command may be absent.\<close>

record job_data =
  jd_id :: "string option"
  jd_command :: string
  jd_max_retries :: "int option"
  jd_priority :: "int option"
  jd_timeout :: "int option"

text \<open>The errors the methods throw (all are plain \<open>Error\<close> objects, told apart by
  their message), and the \<open>RangeError\<close> of \<open>Date.prototype.toISOString\<close>.\<close>

datatype js_error =
    JobNotFound string
  | CannotCancelProcessing
  | CannotCancelCompleted
  | NotFoundInDLQ string
  | RangeError

subsection \<open>JavaScript numbers\<close>

text \<open>
  A Number is an IEEE 754 double: \<open>NaN\<close>, an infinity, or a finite value, kept as the
  real number it denotes (the two zeros are not told apart; nothing below depends on the
  sign of a zero). Addition, multiplication and division return the double nearest to
  the exact result, ties to the even significand: \<open>fl\<close>. A finite double is a multiple
  of \<open>ulp\<close>, the weight of the last of its 53 significant bits, and at least the weight
  \<open>2^-1074\<close> of the subnormal numbers; a result of magnitude \<open>2^1024\<close> or more after
  rounding is an infinity.
\<close>

datatype jsnum = NaN | PosInf | NegInf | Num real

definition round_half_even :: "real \<Rightarrow> int" where
  "round_half_even x =
     (let f = \<lfloor>x\<rfloor>; d = x - of_int f in
      if d < 1 / 2 then f else if 1 / 2 < d then f + 1 else if even f then f else f + 1)"

text \<open>The binary exponent of a positive number: \<open>2^e \<le> x < 2^(e+1)\<close>.\<close>

definition ilog2 :: "real \<Rightarrow> int" where
  "ilog2 x = (if 1 \<le> x then bitlen \<lfloor>x\<rfloor> - 1 else - bitlen (\<lceil>1 / x\<rceil> - 1))"

definition ulp :: "real \<Rightarrow> real" where
  "ulp x = 2 powi (max (ilog2 \<bar>x\<bar>) (- 1022) - 52)"

definition fl :: "real \<Rightarrow> jsnum" where
  "fl x =
     (if x = 0 then Num 0
      else (let v = of_int (round_half_even (x / ulp x)) * ulp x in
            if 2 ^ 1024 \<le> \<bar>v\<bar> then (if 0 < x then PosInf else NegInf) else Num v))"

definition negate :: "jsnum \<Rightarrow> jsnum" where
  "negate a = (case a of NaN \<Rightarrow> NaN | PosInf \<Rightarrow> NegInf | NegInf \<Rightarrow> PosInf | Num x \<Rightarrow> Num (- x))"

definition num_add :: "jsnum \<Rightarrow> jsnum \<Rightarrow> jsnum" where
  "num_add a b =
     (case (a, b) of
        (Num x, Num y) \<Rightarrow> fl (x + y)
      | (NaN, _) \<Rightarrow> NaN
      | (_, NaN) \<Rightarrow> NaN
      | (PosInf, NegInf) \<Rightarrow> NaN
      | (NegInf, PosInf) \<Rightarrow> NaN
      | (PosInf, _) \<Rightarrow> PosInf
      | (NegInf, _) \<Rightarrow> NegInf
      | (_, PosInf) \<Rightarrow> PosInf
      | (_, NegInf) \<Rightarrow> NegInf)"

definition num_sub :: "jsnum \<Rightarrow> jsnum \<Rightarrow> jsnum" where
  "num_sub a b = num_add a (negate b)"

text \<open>The sign of an infinite product or quotient; a zero counts as positive.\<close>

definition signed_inf :: "bool \<Rightarrow> jsnum" where
  "signed_inf positive = (if positive then PosInf else NegInf)"

definition is_negative :: "jsnum \<Rightarrow> bool" where
  "is_negative a = (case a of NegInf \<Rightarrow> True | Num x \<Rightarrow> x < 0 | _ \<Rightarrow> False)"

definition num_mul :: "jsnum \<Rightarrow> jsnum \<Rightarrow> jsnum" where
  "num_mul a b =
     (case (a, b) of
        (Num x, Num y) \<Rightarrow> fl (x * y)
      | (NaN, _) \<Rightarrow> NaN
      | (_, NaN) \<Rightarrow> NaN
      | (Num x, _) \<Rightarrow> (if x = 0 then NaN else signed_inf (is_negative a = is_negative b))
      | (_, Num y) \<Rightarrow> (if y = 0 then NaN else signed_inf (is_negative a = is_negative b))
      | (_, _) \<Rightarrow> signed_inf (is_negative a = is_negative b))"

definition num_div :: "jsnum \<Rightarrow> jsnum \<Rightarrow> jsnum" where
  "num_div a b =
     (case (a, b) of
        (Num x, Num y) \<Rightarrow>
          (if y = 0 then (if x = 0 then NaN else signed_inf (0 < x)) else fl (x / y))
      | (NaN, _) \<Rightarrow> NaN
      | (_, NaN) \<Rightarrow> NaN
      | (Num x, _) \<Rightarrow> Num 0
      | (_, Num y) \<Rightarrow> signed_inf (is_negative a = is_negative b)
      | (_, _) \<Rightarrow> NaN)"

text \<open>\<open>Math.round\<close>: the nearest integer, the upper one of two.\<close>

definition math_round :: "jsnum \<Rightarrow> jsnum" where
  "math_round a = (case a of Num x \<Rightarrow> Num (of_int \<lfloor>x + 1 / 2\<rfloor>) | _ \<Rightarrow> a)"

text \<open>\<open>x.toFixed(1)\<close> is a string; it is modelled by the number the string denotes. For a
  finite \<open>x\<close> below \<open>10^21\<close> in magnitude that is the multiple of \<open>1/10\<close> nearest to the
  exact value of \<open>x\<close>, the one further from zero of two; otherwise the string is that of
  \<open>x\<close> itself.\<close>

definition toFixed1 :: "jsnum \<Rightarrow> jsnum" where
  "toFixed1 a =
     (case a of
        Num x \<Rightarrow>
          if 10 ^ 21 \<le> \<bar>x\<bar> then Num x
          else if x < 0 then Num (- (of_int \<lfloor>- x * 10 + 1 / 2\<rfloor> / 10))
          else Num (of_int \<lfloor>x * 10 + 1 / 2\<rfloor> / 10)
      | _ \<Rightarrow> a)"

subsection \<open>Dates\<close>

text \<open>\<open>new Date(v)\<close> for a number \<open>v\<close>: the time value is \<open>v\<close> truncated to an integer,
  and the date is invalid (\<open>None\<close>) when \<open>v\<close> is not finite or beyond \<open>8.64e15\<close> ms on
  either side of the epoch.\<close>

definition max_time :: int where
  "max_time = 8640000000000000"

definition timeClip :: "jsnum \<Rightarrow> timestamp option" where
  "timeClip v =
     (case v of
        Num x \<Rightarrow> if \<bar>x\<bar> \<le> of_int max_time then Some (if 0 \<le> x then \<lfloor>x\<rfloor> else \<lceil>x\<rceil>) else None
      | _ \<Rightarrow> None)"

text \<open>\<open>toISOString()\<close> throws on an invalid date. The string it returns otherwise is
  \<open>iso t\<close>; the model keeps \<open>t\<close>.\<close>

definition toISOString :: "timestamp option \<Rightarrow> js_error + timestamp" where
  "toISOString d = (case d of None \<Rightarrow> Inl RangeError | Some t \<Rightarrow> Inr t)"

text \<open>The string itself, \<open>YYYY-MM-DDTHH:mm:ss.sssZ\<close>, with the year as \<open>+YYYYYY\<close> or
  \<open>-YYYYYY\<close> outside \<open>0..9999\<close>. The date of a day number is computed in the proleptic
  Gregorian calendar, by eras of 400 years counted from the first of March.\<close>

definition digit_char :: "int \<Rightarrow> char" where
  "digit_char n = ''0123456789'' ! nat (n mod 10)"

definition pad2 :: "int \<Rightarrow> string" where
  "pad2 n = [digit_char (n div 10), digit_char n]"

definition pad3 :: "int \<Rightarrow> string" where
  "pad3 n = [digit_char (n div 100), digit_char (n div 10), digit_char n]"

definition pad4 :: "int \<Rightarrow> string" where
  "pad4 n = [digit_char (n div 1000), digit_char (n div 100), digit_char (n div 10), digit_char n]"

definition pad6 :: "int \<Rightarrow> string" where
  "pad6 n = [digit_char (n div 100000), digit_char (n div 10000), digit_char (n div 1000),
             digit_char (n div 100), digit_char (n div 10), digit_char n]"

definition civil_from_days :: "int \<Rightarrow> int \<times> int \<times> int" where
  "civil_from_days z0 =
     (let z = z0 + 719468;
          era = z div 146097;
          doe = z - era * 146097;
          yoe = (doe - doe div 1460 + doe div 36524 - doe div 146096) div 365;
          doy = doe - (365 * yoe + yoe div 4 - yoe div 100);
          mp = (5 * doy + 2) div 153;
          d = doy - (153 * mp + 2) div 5 + 1;
          m = (if mp < 10 then mp + 3 else mp - 9);
          y = yoe + era * 400 + (if m \<le> 2 then 1 else 0)
      in (y, m, d))"

definition year_string :: "int \<Rightarrow> string" where
  "year_string y =
     (if 0 \<le> y \<and> y \<le> 9999 then pad4 y
      else (if y < 0 then ''-'' else ''+'') @ pad6 \<bar>y\<bar>)"

definition iso :: "timestamp \<Rightarrow> string" where
  "iso t =
     (let ms = t mod 86400000;
          (y, m, d) = civil_from_days (t div 86400000)
      in year_string y @ ''-'' @ pad2 m @ ''-'' @ pad2 d @ ''T'' @
         pad2 (ms div 3600000) @ '':'' @ pad2 (ms div 60000 mod 60) @ '':'' @
         pad2 (ms div 1000 mod 60) @ ''.'' @ pad3 (ms mod 1000) @ ''Z'')"

subsection \<open>JavaScript helpers\<close>

text \<open>\<open>a || d\<close> on an optional number: absent and \<open>0\<close> are falsy.\<close>

definition or_default :: "int option \<Rightarrow> int \<Rightarrow> int" where
  "or_default a d = (case a of None \<Rightarrow> d | Some v \<Rightarrow> if v = 0 then d else v)"

text \<open>Truthiness of an optional string: \<open>null\<close> and \<open>''\<close> are falsy.\<close>

definition truthy :: "string option \<Rightarrow> bool" where
  "truthy s = (case s of None \<Rightarrow> False | Some v \<Rightarrow> v \<noteq> [])"

text \<open>\<open>Array.prototype.findIndex\<close>; \<open>jobs.find(p)\<close> is the element at that index,
  and assigning to its fields updates the array at that index.\<close>

fun findIndex :: "('a \<Rightarrow> bool) \<Rightarrow> 'a list \<Rightarrow> nat option" where
  "findIndex P [] = None"
| "findIndex P (x # xs) = (if P x then Some 0 else map_option Suc (findIndex P xs))"

subsection \<open>Store operations\<close>

text \<open>\<open>enqueue(jobData)\<close>; \<open>gen\<close> is the id \<open>generateId()\<close> would return.\<close>

definition enqueue :: "timestamp \<Rightarrow> string \<Rightarrow> job_data \<Rightarrow> job list \<Rightarrow> job \<times> job list" where
  "enqueue now gen jobData jobs =
     (let job = \<lparr> job_id = (if truthy (jd_id jobData) then the (jd_id jobData) else gen),
                   command = jd_command jobData,
                   state = Pending,
                   attempts = 0,
                   max_retries = or_default (jd_max_retries jobData) 3,
                   priority = or_default (jd_priority jobData) 5,
                   timeout = or_default (jd_timeout jobData) 300000,
                   created_at = now,
                   updated_at = now,
                   next_retry_at = None,
                   error = None,
                   locked_by = None,
                   locked_at = None \<rparr>
      in (job, jobs @ [job]))"

text \<open>The filter of \<open>getNextJob\<close>. \<open>next_retry_at <= now\<close> and
  \<open>locked_at < fiveMinutesAgo\<close> compare ISO strings, code unit by code unit; comparing
  \<open>null\<close> with a string is false.\<close>

definition eligible :: "timestamp \<Rightarrow> job \<Rightarrow> bool" where
  "eligible now job =
     (if state job = Cancelled then False
      else if state job = Pending then True
      else if state job = Failed \<and>
              (case next_retry_at job of None \<Rightarrow> False | Some t \<Rightarrow> iso t \<le> iso now)
        then True
      else if truthy (locked_by job) \<and>
              (case locked_at job of None \<Rightarrow> False
               | Some t \<Rightarrow> iso t < iso (now - 5 * 60 * 1000))
        then True
      else False)"

text \<open>\<open>jobs.map((job, idx) => ({ job, idx })).filter(...)\<close>: the eligible jobs with
  their positions, in store order.\<close>

definition candidates :: "timestamp \<Rightarrow> job list \<Rightarrow> (job \<times> nat) list" where
  "candidates now jobs =
     filter (\<lambda>(job, idx). eligible now job) (zip jobs [0..<length jobs])"

text \<open>\<open>.sort((a, b) => a.job.priority - b.job.priority)\<close>: \<open>Array.prototype.sort\<close> is
  stable, as the insertion sort \<open>sort_key\<close> is.\<close>

definition eligibleJobs :: "timestamp \<Rightarrow> job list \<Rightarrow> (job \<times> nat) list" where
  "eligibleJobs now jobs = sort_key (\<lambda>(job, idx). priority job) (candidates now jobs)"

definition getNextJob :: "timestamp \<Rightarrow> string \<Rightarrow> job list \<Rightarrow> job option \<times> job list" where
  "getNextJob now workerId jobs =
     (case eligibleJobs now jobs of
        [] \<Rightarrow> (None, jobs)
      | (job, idx) # _ \<Rightarrow>
          (let jobs' = jobs[idx := (jobs ! idx)\<lparr> state := Processing,
                                                  locked_by := Some workerId,
                                                  locked_at := Some now,
                                                  updated_at := now \<rparr>]
           in (Some (jobs' ! idx), jobs')))"

definition updateJobState ::
  "timestamp \<Rightarrow> string \<Rightarrow> job_state \<Rightarrow> string option \<Rightarrow> job list \<Rightarrow> job list" where
  "updateJobState now jobId st err jobs =
     (case findIndex (\<lambda>j. job_id j = jobId) jobs of
        None \<Rightarrow> jobs
      | Some i \<Rightarrow> jobs[i := (jobs ! i)\<lparr> state := st, error := err, updated_at := now,
                                         locked_by := None, locked_at := None \<rparr>])"

text \<open>\<open>incrementAttempts(jobId, backoffBase)\<close>. The base is what the worker read from
  the configuration, so any double (a \<open>null\<close> there is the number \<open>0\<close> to \<open>Math.pow\<close>).
  ECMAScript leaves the result of \<open>Math.pow\<close> implementation-approximated; it is the
  parameter \<open>pow\<close>, and \<open>Date.now() + delaySeconds * 1000\<close> is computed from it in
  double arithmetic.\<close>

definition incrementAttempts ::
  "(jsnum \<Rightarrow> nat \<Rightarrow> jsnum) \<Rightarrow> timestamp \<Rightarrow> string \<Rightarrow> jsnum \<Rightarrow> job list \<Rightarrow> js_error + job list" where
  "incrementAttempts pow now jobId backoffBase jobs =
     (case findIndex (\<lambda>j. job_id j = jobId) jobs of
        None \<Rightarrow> Inr jobs
      | Some i \<Rightarrow>
          (let job = jobs ! i; newAttempts = attempts job + 1 in
           if int newAttempts \<ge> max_retries job
           then Inr (jobs[i := job\<lparr> state := Dead, updated_at := now,
                                     locked_by := None, locked_at := None \<rparr>])
           else (let delaySeconds = pow backoffBase newAttempts in
                 case toISOString
                        (timeClip (num_add (Num (of_int now)) (num_mul delaySeconds (Num 1000)))) of
                   Inl e \<Rightarrow> Inl e
                 | Inr nextRetry \<Rightarrow>
                     Inr (jobs[i := job\<lparr> attempts := newAttempts, state := Failed,
                                          next_retry_at := Some nextRetry, updated_at := now,
                                          locked_by := None, locked_at := None \<rparr>]))))"

definition cancelJob :: "timestamp \<Rightarrow> string \<Rightarrow> job list \<Rightarrow> js_error + job list" where
  "cancelJob now jobId jobs =
     (case findIndex (\<lambda>j. job_id j = jobId) jobs of
        None \<Rightarrow> Inl (JobNotFound jobId)
      | Some i \<Rightarrow>
          if state (jobs ! i) = Processing then Inl CannotCancelProcessing
          else if state (jobs ! i) = Completed then Inl CannotCancelCompleted
          else Inr (jobs[i := (jobs ! i)\<lparr> state := Cancelled, updated_at := now,
                                            locked_by := None, locked_at := None \<rparr>]))"

definition retryFromDLQ :: "timestamp \<Rightarrow> string \<Rightarrow> job list \<Rightarrow> js_error + job list" where
  "retryFromDLQ now jobId jobs =
     (case findIndex (\<lambda>j. job_id j = jobId \<and> state j = Dead) jobs of
        None \<Rightarrow> Inl (NotFoundInDLQ jobId)
      | Some i \<Rightarrow>
          Inr (jobs[i := (jobs ! i)\<lparr> state := Pending, attempts := 0, next_retry_at := None,
                                       error := None, updated_at := now \<rparr>]))"

definition setJobError :: "timestamp \<Rightarrow> string \<Rightarrow> string option \<Rightarrow> job list \<Rightarrow> job list" where
  "setJobError now jobId err jobs =
     (case findIndex (\<lambda>j. job_id j = jobId) jobs of
        None \<Rightarrow> jobs
      | Some i \<Rightarrow> jobs[i := (jobs ! i)\<lparr> error := err, updated_at := now \<rparr>])"

subsection \<open>Reachable stores\<close>

text \<open>The stores that the operations produce from the empty array that \<open>initDatabase\<close>
  writes. Clock readings, ids, arguments and the results of \<open>Math.pow\<close> are arbitrary.\<close>

inductive reachable :: "job list \<Rightarrow> bool" where
  r_init: "reachable []"
| r_enqueue: "reachable jobs \<Longrightarrow> reachable (snd (enqueue now gen jobData jobs))"
| r_claim: "reachable jobs \<Longrightarrow> reachable (snd (getNextJob now workerId jobs))"
| r_update: "reachable jobs \<Longrightarrow> reachable (updateJobState now jobId st err jobs)"
| r_error: "reachable jobs \<Longrightarrow> reachable (setJobError now jobId err jobs)"
| r_fail: "reachable jobs \<Longrightarrow> incrementAttempts pow now jobId backoffBase jobs = Inr jobs' \<Longrightarrow>
             reachable jobs'"
| r_cancel: "reachable jobs \<Longrightarrow> cancelJob now jobId jobs = Inr jobs' \<Longrightarrow> reachable jobs'"
| r_retry: "reachable jobs \<Longrightarrow> retryFromDLQ now jobId jobs = Inr jobs' \<Longrightarrow> reachable jobs'"

text \<open>Invariant I5 of the specification, for one job: a job in a final state holds no
  lock.\<close>

definition finished_unlocked :: "job \<Rightarrow> bool" where
  "finished_unlocked j = (if state j \<in> {Completed, Dead, Cancelled} then locked_by j = None else True)"

subsection \<open>Metrics\<close>

record metrics =
  totalJobs :: nat
  completedJobs :: nat
  avgExecutionTime :: jsnum
  successRate :: jsnum

text \<open>\<open>getMetrics()\<close>. \<open>new Date(s)\<close> of a stored string is its time value; differences,
  the sum of \<open>reduce\<close>, the quotients and the product are doubles. \<open>successRate\<close> is the
  number \<open>0\<close> in the first branch and the string of \<open>toFixed(1)\<close> in the second.\<close>

definition getMetrics :: "job list \<Rightarrow> metrics" where
  "getMetrics jobs =
     (let completed = filter (\<lambda>j. state j = Completed) jobs in
      if length completed = 0
      then \<lparr> totalJobs = length jobs, completedJobs = 0,
             avgExecutionTime = Num 0, successRate = Num 0 \<rparr>
      else
        (let executionTimes =
               map (\<lambda>j. num_sub (Num (of_int (updated_at j))) (Num (of_int (created_at j))))
                 completed;
             avgTime = num_div (foldl (\<lambda>a b. num_add a b) (Num 0) executionTimes)
                         (Num (of_nat (length executionTimes)))
         in \<lparr> totalJobs = length jobs,
              completedJobs = length completed,
              avgExecutionTime = math_round (num_div avgTime (Num 1000)),
              successRate =
                toFixed1 (num_mul (num_div (Num (of_nat (length completed)))
                                           (Num (of_nat (length jobs))))
                                  (Num 100)) \<rparr>))"

text \<open>The two derived values as the specification words them (section 4.1, \<open>metrics()\<close>):
  \<open>success_rate = completed/total\<close>, and the average of \<open>updated_at - created_at\<close> over
  the completed jobs, both zero when there is nothing to divide by.\<close>

definition spec_success_rate :: "job list \<Rightarrow> real" where
  "spec_success_rate jobs =
     (if length jobs = 0 then 0
      else of_nat (length (filter (\<lambda>j. state j = Completed) jobs)) / of_nat (length jobs))"

definition spec_avg_completion_latency :: "job list \<Rightarrow> real" where
  "spec_avg_completion_latency jobs =
     (let done = filter (\<lambda>j. state j = Completed) jobs in
      if done = [] then 0
      else of_int (\<Sum>j\<leftarrow>done. updated_at j - created_at j) / of_nat (length done))"

section \<open>The configuration store: class \<open>ConfigManager\<close>\<close>

text \<open>
  \<open>ConfigManager.set(key, value)\<close> receives the value as the string of the command line
  and reads it with the built-in \<open>parseFloat\<close>, which skips leading white space and
  reads the longest prefix that is a decimal literal (an optional sign, then
  \<open>Infinity\<close> or digits with an optional fraction and exponent); whatever follows is
  ignored, and without such a prefix the result is \<open>NaN\<close>. The result is the double
  nearest to the value of the literal. A string is a list of code units below 256, of
  which the white space is tab, line feed, vertical tab, form feed, carriage return,
  space and no-break space.
\<close>

definition is_space :: "char \<Rightarrow> bool" where
  "is_space c = (c \<in> {CHR 0x09, CHR 0x0A, CHR 0x0B, CHR 0x0C, CHR 0x0D, CHR '' '', CHR 0xA0})"

definition is_digit :: "char \<Rightarrow> bool" where
  "is_digit c = (c \<in> set ''0123456789'')"

definition digit_val :: "char \<Rightarrow> nat" where
  "digit_val c = of_char c - 48"

definition digits_val :: "string \<Rightarrow> nat" where
  "digits_val ds = foldl (\<lambda>a c. 10 * a + digit_val c) 0 ds"

definition pow10 :: "int \<Rightarrow> real" where
  "pow10 e = (if 0 \<le> e then 10 ^ nat e else 1 / 10 ^ nat (- e))"

definition exponent_part :: "string \<Rightarrow> int" where
  "exponent_part s =
     (case s of
        [] \<Rightarrow> 0
      | c # r \<Rightarrow>
          if c = CHR ''e'' \<or> c = CHR ''E'' then
            (case r of
               [] \<Rightarrow> 0
             | sg # r' \<Rightarrow>
                 if sg = CHR ''+'' \<or> sg = CHR ''-'' then
                   (if takeWhile is_digit r' = [] then 0
                    else if sg = CHR ''-'' then - int (digits_val (takeWhile is_digit r'))
                    else int (digits_val (takeWhile is_digit r')))
                 else if takeWhile is_digit r = [] then 0
                 else int (digits_val (takeWhile is_digit r)))
          else 0)"

definition unsigned_literal :: "string \<Rightarrow> jsnum" where
  "unsigned_literal s =
     (if take 8 s = ''Infinity'' then PosInf
      else
        (let ip = takeWhile is_digit s;
             r1 = dropWhile is_digit s;
             dot = (case r1 of [] \<Rightarrow> False | c # _ \<Rightarrow> c = CHR ''.'');
             fp = (if dot then takeWhile is_digit (tl r1) else []);
             r2 = (if dot then dropWhile is_digit (tl r1) else r1)
         in if ip = [] \<and> fp = [] then NaN
            else fl (real (digits_val (ip @ fp)) / 10 ^ length fp * pow10 (exponent_part r2))))"

definition parseFloat :: "string \<Rightarrow> jsnum" where
  "parseFloat s =
     (case dropWhile is_space s of
        [] \<Rightarrow> NaN
      | c # r \<Rightarrow>
          if c = CHR ''+'' then unsigned_literal r
          else if c = CHR ''-'' then negate (unsigned_literal r)
          else unsigned_literal (c # r))"

text \<open>Whether a string begins, after white space and an optional sign, with a decimal
  literal: \<open>Infinity\<close>, a digit, or a point followed by a digit.\<close>

definition starts_number :: "string \<Rightarrow> bool" where
  "starts_number s =
     (take 8 s = ''Infinity'' \<or>
      (case s of
         [] \<Rightarrow> False
       | c # r \<Rightarrow> is_digit c \<or> (c = CHR ''.'' \<and> (case r of [] \<Rightarrow> False | d # _ \<Rightarrow> is_digit d))))"

definition has_numeric_prefix :: "string \<Rightarrow> bool" where
  "has_numeric_prefix s =
     (case dropWhile is_space s of
        [] \<Rightarrow> False
      | c # r \<Rightarrow> if c = CHR ''+'' \<or> c = CHR ''-'' then starts_number r else starts_number (c # r))"

text \<open>\<open>isNaN(numValue) || numValue <= 0\<close>.\<close>

definition isNaN :: "jsnum \<Rightarrow> bool" where
  "isNaN n = (n = NaN)"

definition le_zero :: "jsnum \<Rightarrow> bool" where
  "le_zero n = (case n of NaN \<Rightarrow> False | PosInf \<Rightarrow> False | NegInf \<Rightarrow> True | Num r \<Rightarrow> r \<le> 0)"

text \<open>The configuration is the object of \<open>config.json\<close>; its values are numbers, or
  \<open>null\<close>, which is what \<open>JSON.stringify\<close> writes for a number that is not finite.\<close>

datatype json = JNull | JNumber real

type_synonym config = "string \<rightharpoonup> json"

definition stringify :: "jsnum \<Rightarrow> json" where
  "stringify n = (case n of Num r \<Rightarrow> JNumber r | _ \<Rightarrow> JNull)"

datatype config_error = InvalidConfigKey | NotPositiveNumber

definition validKeys :: "string list" where
  "validKeys = [''max-retries'', ''backoff-base'']"

text \<open>\<open>set(key, value)\<close>, from the object \<open>readConfig()\<close> returned to the object
  \<open>writeConfig\<close> leaves in the file; both checks throw before anything is read or
  written.\<close>

definition config_set :: "string \<Rightarrow> string \<Rightarrow> config \<Rightarrow> config_error + config" where
  "config_set key val config =
     (if key \<notin> set validKeys then Inl InvalidConfigKey
      else
        (let numValue = parseFloat val in
         if isNaN numValue \<or> le_zero numValue then Inl NotPositiveNumber
         else Inr (config(key \<mapsto> stringify numValue))))"

section \<open>Sample data\<close>

text \<open>A job as the store holds it, for the concrete evaluations below: id, state,
  attempts, max_retries, priority and creation time are given, no lock is held.\<close>

definition a_job :: "string \<Rightarrow> job_state \<Rightarrow> nat \<Rightarrow> int \<Rightarrow> int \<Rightarrow> timestamp \<Rightarrow> job" where
  "a_job i st a m p c =
     \<lparr> job_id = i, command = ''exit 1'', state = st, attempts = a, max_retries = m,
       priority = p, timeout = 300000, created_at = c, updated_at = c,
       next_retry_at = None, error = None, locked_by = None, locked_at = None \<rparr>"

text \<open>A request as the CLI builds it from \<open>-i\<close>, \<open>-c\<close> and \<open>-r\<close>.\<close>

definition a_request :: "string option \<Rightarrow> string \<Rightarrow> int option \<Rightarrow> job_data" where
  "a_request i c m =
     \<lparr> jd_id = i, jd_command = c, jd_max_retries = m, jd_priority = None, jd_timeout = None \<rparr>"

text \<open>A \<open>Math.pow\<close> that returns the double nearest to the exact power.\<close>

definition exact_pow :: "jsnum \<Rightarrow> nat \<Rightarrow> jsnum" where
  "exact_pow b n =
     (if n = 0 then Num 1
      else (case b of
              Num x \<Rightarrow> fl (x ^ n)
            | NaN \<Rightarrow> NaN
            | PosInf \<Rightarrow> PosInf
            | NegInf \<Rightarrow> if even n then PosInf else NegInf))"


section \<open>Properties\<close>

subsection \<open>Facts about \<open>findIndex\<close>\<close>

lemma findIndex_None: "findIndex P xs = None \<longleftrightarrow> (\<forall>x \<in> set xs. \<not> P x)"
  by (induction xs) auto

lemma findIndex_Some:
  "findIndex P xs = Some i \<Longrightarrow> i < length xs \<and> P (xs ! i) \<and> (\<forall>k < i. \<not> P (xs ! k))"
proof (induction xs arbitrary: i)
  case Nil
  then show ?case by simp
next
  case (Cons x xs)
  show ?case
  proof (cases "P x")
    case True
    with Cons.prems show ?thesis by simp
  next
    case False
    with Cons.prems obtain j where j: "findIndex P xs = Some j" "i = Suc j"
      by auto
    from Cons.IH [OF j(1)] have ih: "j < length xs" "P (xs ! j)" "\<forall>k < j. \<not> P (xs ! k)"
      by simp_all
    have "\<not> P ((x # xs) ! k)" if "k < i" for k
      using that False ih(3) j(2) by (cases k) auto
    with ih j(2) show ?thesis by simp
  qed
qed

lemma findIndex_SomeI:
  "i < length xs \<Longrightarrow> P (xs ! i) \<Longrightarrow> (\<forall>k < i. \<not> P (xs ! k)) \<Longrightarrow> findIndex P xs = Some i"
proof (induction xs arbitrary: i)
  case Nil
  then show ?case by simp
next
  case (Cons x xs)
  show ?case
  proof (cases i)
    case 0
    with Cons.prems show ?thesis by simp
  next
    case (Suc j)
    with Cons.prems have "\<not> P x" by auto
    moreover from Suc Cons.prems have "findIndex P xs = Some j"
      by (intro Cons.IH) auto
    ultimately show ?thesis using Suc by simp
  qed
qed

lemma findIndex_Some_iff:
  "findIndex P xs = Some i \<longleftrightarrow> i < length xs \<and> P (xs ! i) \<and> (\<forall>k < i. \<not> P (xs ! k))"
  using findIndex_Some findIndex_SomeI by metis

subsection \<open>The head of the sorted eligible jobs\<close>

text \<open>The head of a stable sort: the first of the elements with the least key.\<close>

lemma sort_key_head:
  "sort_key f xs = y # ys \<Longrightarrow>
     \<exists>us vs. xs = us @ y # vs \<and> (\<forall>u \<in> set us. f y < f u) \<and> (\<forall>v \<in> set vs. f y \<le> f v)"
proof (induction xs arbitrary: y ys)
  case Nil
  then show ?case by simp
next
  case (Cons a xs)
  show ?case
  proof (cases "sort_key f xs")
    case Nil
    then have "xs = []" by (metis length_sort length_0_conv)
    with Cons.prems have "y = a" "a # xs = [] @ y # []" by simp_all
    then show ?thesis by (intro exI [of _ "[]"]) simp
  next
    case (Cons z zs)
    from Cons.IH [OF Cons] obtain us vs where
      d: "xs = us @ z # vs" "\<forall>u \<in> set us. f z < f u" "\<forall>v \<in> set vs. f z \<le> f v"
      by blast
    show ?thesis
    proof (cases "f a \<le> f z")
      case True
      with Cons Cons.prems have "y = a" by simp
      moreover have "\<forall>v \<in> set xs. f a \<le> f v"
        using d True by fastforce
      ultimately show ?thesis by (intro exI [of _ "[]"] exI [of _ xs]) simp
    next
      case False
      with Cons Cons.prems have "y = z" by simp
      with d False show ?thesis
        by (intro exI [of _ "a # us"] exI [of _ vs]) auto
    qed
  qed
qed

lemma sort_key_Nil_iff: "sort_key f xs = [] \<longleftrightarrow> xs = []"
  by (metis length_sort length_0_conv)

lemma set_candidates:
  "set (candidates now jobs) = {(jobs ! i, i) | i. i < length jobs \<and> eligible now (jobs ! i)}"
  by (auto simp: candidates_def set_zip)

lemma candidates_sorted: "sorted_wrt (\<lambda>a b. snd a < snd b) (candidates now jobs)"
proof -
  have "sorted_wrt (<) (map snd (zip jobs [0..<length jobs]))"
    by simp
  then have "sorted_wrt (\<lambda>a b. snd a < snd b) (zip jobs [0..<length jobs])"
    by (simp only: sorted_wrt_map)
  then show ?thesis
    unfolding candidates_def by (rule sorted_wrt_filter)
qed

lemma eligibleJobs_head:
  assumes "eligibleJobs now jobs = (job, idx) # rest"
  shows "idx < length jobs \<and> job = jobs ! idx \<and> eligible now (jobs ! idx) \<and>
         (\<forall>k < length jobs. eligible now (jobs ! k) \<longrightarrow> priority (jobs ! idx) \<le> priority (jobs ! k)) \<and>
         (\<forall>k < idx. eligible now (jobs ! k) \<longrightarrow> priority (jobs ! idx) < priority (jobs ! k))"
proof -
  let ?f = "\<lambda>(job, idx). priority job"
  let ?cs = "candidates now jobs"
  from assms have "sort_key ?f ?cs = (job, idx) # rest"
    by (simp add: eligibleJobs_def)
  from sort_key_head [OF this] obtain us vs where
    d: "?cs = us @ (job, idx) # vs" "\<forall>u \<in> set us. ?f (job, idx) < ?f u"
       "\<forall>v \<in> set vs. ?f (job, idx) \<le> ?f v"
    by blast
  from d(1) have "(job, idx) \<in> set ?cs" by simp
  then have m: "idx < length jobs" "job = jobs ! idx" "eligible now (jobs ! idx)"
    by (auto simp: set_candidates)
  from candidates_sorted [of now jobs] d(1)
  have pos: "\<forall>u \<in> set us. snd u < idx" "\<forall>v \<in> set vs. idx < snd v"
    by (auto simp: sorted_wrt_append)
  have all: "priority (jobs ! idx) \<le> priority (jobs ! k)"
    if "k < length jobs" "eligible now (jobs ! k)" for k
  proof -
    from that have "(jobs ! k, k) \<in> set ?cs" by (auto simp: set_candidates)
    with d(1) have "(jobs ! k, k) \<in> set us \<or> (jobs ! k, k) = (job, idx) \<or> (jobs ! k, k) \<in> set vs"
      by auto
    with d(2,3) m(2) show ?thesis by fastforce
  qed
  have first: "priority (jobs ! idx) < priority (jobs ! k)"
    if "k < idx" "eligible now (jobs ! k)" for k
  proof -
    from that m(1) have "(jobs ! k, k) \<in> set ?cs" by (auto simp: set_candidates)
    with d(1) have "(jobs ! k, k) \<in> set us \<or> (jobs ! k, k) = (job, idx) \<or> (jobs ! k, k) \<in> set vs"
      by auto
    with pos that(1) have "(jobs ! k, k) \<in> set us" by fastforce
    with d(2) m(2) show ?thesis by fastforce
  qed
  from m all first show ?thesis by blast
qed

lemma eligibleJobs_Nil: "eligibleJobs now jobs = [] \<longleftrightarrow> (\<forall>j \<in> set jobs. \<not> eligible now j)"
proof -
  have "eligibleJobs now jobs = [] \<longleftrightarrow> candidates now jobs = []"
    by (simp add: eligibleJobs_def sort_key_Nil_iff)
  also have "\<dots> \<longleftrightarrow> set (candidates now jobs) = {}" by simp
  also have "\<dots> \<longleftrightarrow> (\<forall>j \<in> set jobs. \<not> eligible now j)"
    unfolding set_candidates by (auto simp: in_set_conv_nth) (metis nth_mem)
  finally show ?thesis .
qed

lemma getNextJob_None:
  "(\<forall>j \<in> set jobs. \<not> eligible now j) \<Longrightarrow> getNextJob now workerId jobs = (None, jobs)"
  by (simp add: getNextJob_def eligibleJobs_Nil [THEN iffD2])

lemma getNextJob_Some:
  assumes "\<exists>j \<in> set jobs. eligible now j"
  shows "\<exists>idx < length jobs.
           eligible now (jobs ! idx) \<and>
           (\<forall>k < length jobs. eligible now (jobs ! k) \<longrightarrow> priority (jobs ! idx) \<le> priority (jobs ! k)) \<and>
           (\<forall>k < idx. eligible now (jobs ! k) \<longrightarrow> priority (jobs ! idx) < priority (jobs ! k)) \<and>
           getNextJob now workerId jobs =
             (Some ((jobs ! idx)\<lparr> state := Processing, locked_by := Some workerId,
                                   locked_at := Some now, updated_at := now \<rparr>),
              jobs[idx := (jobs ! idx)\<lparr> state := Processing, locked_by := Some workerId,
                                        locked_at := Some now, updated_at := now \<rparr>])"
proof -
  from assms have "eligibleJobs now jobs \<noteq> []"
    by (simp add: eligibleJobs_Nil)
  then obtain job idx rest where e: "eligibleJobs now jobs = (job, idx) # rest"
    by (cases "eligibleJobs now jobs") auto
  from eligibleJobs_head [OF e] have h: "idx < length jobs" "eligible now (jobs ! idx)"
    "\<forall>k < length jobs. eligible now (jobs ! k) \<longrightarrow> priority (jobs ! idx) \<le> priority (jobs ! k)"
    "\<forall>k < idx. eligible now (jobs ! k) \<longrightarrow> priority (jobs ! idx) < priority (jobs ! k)"
    by simp_all
  from e h(1) have "getNextJob now workerId jobs =
             (Some ((jobs ! idx)\<lparr> state := Processing, locked_by := Some workerId,
                                   locked_at := Some now, updated_at := now \<rparr>),
              jobs[idx := (jobs ! idx)\<lparr> state := Processing, locked_by := Some workerId,
                                        locked_at := Some now, updated_at := now \<rparr>])"
    by (simp add: getNextJob_def Let_def)
  with h show ?thesis by blast
qed

lemma eligible_state:
  "eligible now j \<Longrightarrow> state j \<noteq> Cancelled \<and>
     (state j \<in> {Pending, Failed} \<or> truthy (locked_by j))"
  by (auto simp: eligible_def split: if_splits)

subsection \<open>Jobs in a final state hold no lock\<close>

text \<open>Every operation clears \<open>locked_by\<close> when it moves a job to \<open>completed\<close>, \<open>dead\<close>
  or \<open>cancelled\<close>, and only \<open>getNextJob\<close> sets it, together with \<open>processing\<close>.\<close>

lemma list_all_update:
  "list_all P xs \<Longrightarrow> P y \<Longrightarrow> list_all P (xs[i := y])"
  unfolding list_all_iff using set_update_subset_insert [of xs i y] by auto

lemma enqueue_finished_unlocked:
  "list_all finished_unlocked jobs \<Longrightarrow> list_all finished_unlocked (snd (enqueue now gen jobData jobs))"
  by (simp add: enqueue_def Let_def finished_unlocked_def)

lemma getNextJob_finished_unlocked:
  "list_all finished_unlocked jobs \<Longrightarrow> list_all finished_unlocked (snd (getNextJob now workerId jobs))"
  by (auto simp: getNextJob_def Let_def finished_unlocked_def split: list.splits
      intro!: list_all_update)

lemma updateJobState_finished_unlocked:
  "list_all finished_unlocked jobs \<Longrightarrow> list_all finished_unlocked (updateJobState now jobId st err jobs)"
  by (auto simp: updateJobState_def finished_unlocked_def split: option.splits
      intro!: list_all_update)

lemma setJobError_finished_unlocked:
  assumes "list_all finished_unlocked jobs"
  shows "list_all finished_unlocked (setJobError now jobId err jobs)"
proof (cases "findIndex (\<lambda>j. job_id j = jobId) jobs")
  case None
  with assms show ?thesis by (simp add: setJobError_def)
next
  case (Some i)
  from findIndex_Some [OF Some] have "jobs ! i \<in> set jobs" by simp
  with assms have "finished_unlocked (jobs ! i)" by (simp add: list_all_iff)
  then have "finished_unlocked ((jobs ! i)\<lparr> error := err, updated_at := now \<rparr>)"
    by (simp add: finished_unlocked_def)
  with assms Some show ?thesis
    by (simp add: setJobError_def list_all_update)
qed

lemma incrementAttempts_finished_unlocked:
  "list_all finished_unlocked jobs \<Longrightarrow> incrementAttempts pow now jobId backoffBase jobs = Inr jobs' \<Longrightarrow>
     list_all finished_unlocked jobs'"
  by (auto simp: incrementAttempts_def Let_def finished_unlocked_def
      split: option.splits if_splits sum.splits intro!: list_all_update)

lemma cancelJob_finished_unlocked:
  "list_all finished_unlocked jobs \<Longrightarrow> cancelJob now jobId jobs = Inr jobs' \<Longrightarrow>
     list_all finished_unlocked jobs'"
  by (auto simp: cancelJob_def finished_unlocked_def split: option.splits if_splits
      intro!: list_all_update)

lemma retryFromDLQ_finished_unlocked:
  "list_all finished_unlocked jobs \<Longrightarrow> retryFromDLQ now jobId jobs = Inr jobs' \<Longrightarrow>
     list_all finished_unlocked jobs'"
  by (auto simp: retryFromDLQ_def finished_unlocked_def split: option.splits
      intro!: list_all_update)

lemma reachable_finished_unlocked:
  "reachable jobs \<Longrightarrow> list_all finished_unlocked jobs"
proof (induction rule: reachable.induct)
  case r_init
  show ?case by simp
qed (blast intro: enqueue_finished_unlocked getNextJob_finished_unlocked
      updateJobState_finished_unlocked setJobError_finished_unlocked
      incrementAttempts_finished_unlocked cancelJob_finished_unlocked
      retryFromDLQ_finished_unlocked)+

lemma reachable_no_finished_lock:
  assumes "reachable jobs"
  shows "\<forall>j \<in> set jobs. state j \<in> {Completed, Dead} \<longrightarrow> \<not> truthy (locked_by j)"
proof
  fix j
  assume "j \<in> set jobs"
  with reachable_finished_unlocked [OF assms] have "finished_unlocked j"
    by (simp add: list_all_iff)
  then show "state j \<in> {Completed, Dead} \<longrightarrow> \<not> truthy (locked_by j)"
    by (auto simp: finished_unlocked_def truthy_def)
qed

subsection \<open>Store order and creation order\<close>

text \<open>\<open>created_at\<close> is written by \<open>enqueue\<close> alone, which appends: the store is in
  \<open>created_at\<close> order as long as the clock read by \<open>enqueue\<close> never steps back.\<close>

lemma map_update_same:
  assumes "f y = f (xs ! i)"
  shows "map f (xs[i := y]) = map f xs"
proof (cases "i < length xs")
  case True
  with assms show ?thesis
    by (simp add: map_update list_update_same_conv)
next
  case False
  then have "xs[i := y] = xs" by (intro list_update_beyond) simp
  then show ?thesis by simp
qed

lemma created_at_enqueue:
  "map created_at (snd (enqueue now gen jobData jobs)) = map created_at jobs @ [now]"
  by (simp add: enqueue_def Let_def)

lemma created_at_getNextJob:
  "map created_at (snd (getNextJob now workerId jobs)) = map created_at jobs"
  by (simp add: getNextJob_def Let_def map_update_same split: list.splits prod.splits)

lemma created_at_updateJobState:
  "map created_at (updateJobState now jobId st err jobs) = map created_at jobs"
  by (simp add: updateJobState_def map_update_same split: option.splits)

lemma created_at_setJobError:
  "map created_at (setJobError now jobId err jobs) = map created_at jobs"
  by (simp add: setJobError_def map_update_same split: option.splits)

lemma created_at_incrementAttempts:
  "incrementAttempts pow now jobId backoffBase jobs = Inr jobs' \<Longrightarrow>
     map created_at jobs' = map created_at jobs"
  by (auto simp: incrementAttempts_def Let_def map_update_same
      split: option.splits if_splits sum.splits)

lemma created_at_cancelJob:
  "cancelJob now jobId jobs = Inr jobs' \<Longrightarrow> map created_at jobs' = map created_at jobs"
  by (auto simp: cancelJob_def map_update_same split: option.splits if_splits)

lemma created_at_retryFromDLQ:
  "retryFromDLQ now jobId jobs = Inr jobs' \<Longrightarrow> map created_at jobs' = map created_at jobs"
  by (auto simp: retryFromDLQ_def map_update_same split: option.splits)

lemma enqueue_keeps_creation_order:
  "sorted (map created_at jobs) \<Longrightarrow> \<forall>j \<in> set jobs. created_at j \<le> now \<Longrightarrow>
     sorted (map created_at (snd (enqueue now gen jobData jobs)))"
  by (simp add: created_at_enqueue sorted_append)


subsection \<open>Rounding to a double\<close>

lemma round_half_even_near: "\<bar>of_int (round_half_even x) - x\<bar> \<le> 1 / 2"
  unfolding round_half_even_def Let_def by (auto; linarith)

lemma round_half_even_of_int [simp]: "round_half_even (of_int z) = z"
  by (simp add: round_half_even_def)

lemma powi_nat: "0 \<le> k \<Longrightarrow> (2::real) powi k = 2 ^ nat k"
  by (simp add: power_int_def)

lemma powi_neg_nat: "0 \<le> k \<Longrightarrow> (2::real) powi (- k) = 1 / 2 ^ nat k"
  by (simp add: power_int_def field_simps)

lemma ilog2_bounds:
  assumes "0 < x"
  shows "2 powi ilog2 x \<le> x \<and> x < 2 powi (ilog2 x + 1)"
proof (cases "1 \<le> x")
  case True
  define n where "n = \<lfloor>x\<rfloor>"
  define b where "b = bitlen n"
  from True have n: "1 \<le> n" by (simp add: n_def le_floor_iff)
  then have "0 < n" by simp
  from bitlen_bounds [OF this] have bb: "2 ^ nat (b - 1) \<le> n" "n < 2 ^ nat b"
    by (simp_all add: b_def)
  from n have b1: "1 \<le> b"
    by (simp add: b_def bitlen_alt_def)
  have e: "ilog2 x = b - 1"
    using True by (simp add: ilog2_def n_def b_def)
  have "(2::real) ^ nat (b - 1) \<le> of_int n"
    using bb(1) by (metis of_int_le_iff of_int_numeral of_int_power)
  also have "\<dots> \<le> x" by (simp add: n_def)
  finally have lo: "2 powi (b - 1) \<le> x"
    using b1 by (simp add: powi_nat)
  have "n + 1 \<le> 2 ^ nat b" using bb(2) by simp
  then have "of_int (n + 1) \<le> (2::real) ^ nat b"
    by (metis of_int_le_iff of_int_numeral of_int_power)
  moreover have "x < of_int (n + 1)"
    unfolding n_def by linarith
  ultimately have "x < 2 powi b"
    using b1 by (simp add: powi_nat)
  with lo e show ?thesis by simp
next
  case False
  define y where "y = 1 / x"
  define m where "m = \<lceil>y\<rceil> - 1"
  define k where "k = bitlen m"
  from False assms have y1: "1 < y" by (simp add: y_def)
  then have m1: "1 \<le> m" unfolding m_def by linarith
  then have "0 < m" by simp
  from bitlen_bounds [OF this] have bb: "2 ^ nat (k - 1) \<le> m" "m < 2 ^ nat k"
    by (simp_all add: k_def)
  from m1 have k1: "1 \<le> k"
    by (simp add: k_def bitlen_alt_def)
  have e: "ilog2 x = - k"
    using False by (simp add: ilog2_def y_def m_def k_def)
  have x: "x = 1 / y" by (simp add: y_def)
  have "m + 1 \<le> 2 ^ nat k" using bb(2) by simp
  then have "of_int (m + 1) \<le> (2::real) ^ nat k"
    by (metis of_int_le_iff of_int_numeral of_int_power)
  moreover have "y \<le> of_int (m + 1)"
    unfolding m_def by simp
  ultimately have "y \<le> 2 ^ nat k" by linarith
  with y1 have "1 / 2 ^ nat k \<le> 1 / y"
    by (intro divide_left_mono) simp_all
  then have lo: "2 powi (- k) \<le> x"
    using k1 x by (simp add: powi_neg_nat)
  have "(2::real) ^ nat (k - 1) \<le> of_int m"
    using bb(1) by (metis of_int_le_iff of_int_numeral of_int_power)
  moreover have "of_int m < y"
    unfolding m_def by linarith
  ultimately have "(2::real) ^ nat (k - 1) < y" by linarith
  with y1 have "1 / y < 1 / 2 ^ nat (k - 1)"
    by (intro divide_strict_left_mono) (simp_all add: mult_pos_pos)
  moreover have "(2::real) powi (- k + 1) = 1 / 2 ^ nat (k - 1)"
    using k1 powi_neg_nat [of "k - 1"] by simp
  ultimately have "x < 2 powi (- k + 1)"
    using x by simp
  with lo e show ?thesis by simp
qed

lemma powi_exp_unique:
  assumes "(2::real) powi a \<le> x" "x < 2 powi (a + 1)" "2 powi b \<le> x" "x < 2 powi (b + 1)"
  shows "a = b"
proof (rule ccontr)
  assume "a \<noteq> b"
  then consider "a + 1 \<le> b" | "b + 1 \<le> a" by linarith
  then show False
  proof cases
    case 1
    then have "(2::real) powi (a + 1) \<le> 2 powi b"
      by (intro power_int_increasing) simp_all
    with assms show False by linarith
  next
    case 2
    then have "(2::real) powi (b + 1) \<le> 2 powi a"
      by (intro power_int_increasing) simp_all
    with assms show False by linarith
  qed
qed

lemma ilog2_eqI:
  assumes "2 powi e \<le> x" "x < 2 powi (e + 1)"
  shows "ilog2 x = e"
proof -
  have "(0::real) < 2 powi e" by simp
  with assms(1) have "0 < x" by linarith
  from ilog2_bounds [OF this] assms show ?thesis
    by (intro powi_exp_unique [of "ilog2 x" x e]) simp_all
qed

lemma ulp_pos [simp]: "0 < ulp x"
  by (simp add: ulp_def)

lemma ulp_eqI:
  assumes "2 powi e \<le> \<bar>x\<bar>" "\<bar>x\<bar> < 2 powi (e + 1)"
  shows "ulp x = 2 powi (max e (- 1022) - 52)"
  using ilog2_eqI [OF assms] by (simp add: ulp_def)

lemma fl_eqI:
  assumes "2 powi e \<le> \<bar>x\<bar>" "\<bar>x\<bar> < 2 powi (e + 1)"
    and "round_half_even (x / 2 powi (max e (- 1022) - 52)) = m"
    and "\<bar>real_of_int m * 2 powi (max e (- 1022) - 52)\<bar> < 2 ^ 1024"
  shows "fl x = Num (of_int m * 2 powi (max e (- 1022) - 52))"
proof -
  have "(0::real) < 2 powi e" by simp
  with assms(1) have "0 < \<bar>x\<bar>" by linarith
  then have "x \<noteq> 0" by simp
  with assms(3,4) ulp_eqI [OF assms(1,2)] show ?thesis
    by (simp add: fl_def Let_def)
qed

lemma fl_0 [simp]: "fl 0 = Num 0"
  by (simp add: fl_def)

lemma fl_error:
  assumes "\<bar>x\<bar> < 2 powi k" and "- 1021 \<le> k" and "k \<le> 1023"
  shows "\<exists>v. fl x = Num v \<and> \<bar>v - x\<bar> \<le> 2 powi (k - 54)"
proof (cases "x = 0")
  case True
  then show ?thesis by simp
next
  case False
  define v where "v = of_int (round_half_even (x / ulp x)) * ulp x"
  from False have "0 < \<bar>x\<bar>" by simp
  from ilog2_bounds [OF this] assms(1) have "(2::real) powi ilog2 \<bar>x\<bar> < 2 powi k"
    by linarith
  then have "ilog2 \<bar>x\<bar> < k"
    by (metis power_int_increasing linorder_not_less one_le_numeral)
  with assms(2) have "max (ilog2 \<bar>x\<bar>) (- 1022) - 52 \<le> k - 53" by simp
  then have u: "ulp x \<le> 2 powi (k - 53)"
    unfolding ulp_def by (intro power_int_increasing) simp_all
  have "ulp x \<noteq> 0" by (metis ulp_pos less_irrefl)
  then have "v - x = (of_int (round_half_even (x / ulp x)) - x / ulp x) * ulp x"
    by (simp add: v_def left_diff_distrib)
  moreover have "\<bar>ulp x\<bar> = ulp x"
    using ulp_pos [of x] by (simp only: abs_of_pos)
  ultimately have "\<bar>v - x\<bar> = \<bar>of_int (round_half_even (x / ulp x)) - x / ulp x\<bar> * ulp x"
    by (simp only: abs_mult)
  also have "\<dots> \<le> 1 / 2 * ulp x"
    by (intro mult_right_mono round_half_even_near less_imp_le [OF ulp_pos])
  also have "\<dots> \<le> 1 / 2 * 2 powi (k - 53)"
    using u by simp
  also have "\<dots> = 2 powi (k - 54)"
    using power_int_add [of "2::real" "k - 54" 1] by simp
  finally have err: "\<bar>v - x\<bar> \<le> 2 powi (k - 54)" .
  have "(2::real) powi (k - 54) \<le> 2 powi k"
    by (intro power_int_increasing) simp_all
  with err assms(1) have "\<bar>v\<bar> < 2 * 2 powi k" by linarith
  also have "\<dots> = 2 powi (k + 1)"
    using power_int_add [of "2::real" k 1] by simp
  also have "\<dots> \<le> 2 powi 1024"
    using assms(3) by (intro power_int_increasing) simp_all
  finally have "\<bar>v\<bar> < 2 ^ 1024" by simp
  with False err show ?thesis
    by (simp add: fl_def Let_def v_def)
qed

lemma fl_of_int:
  assumes "\<bar>z\<bar> \<le> 2 ^ 53"
  shows "fl (of_int z) = Num (of_int z)"
proof (cases "z = 0")
  case True
  then show ?thesis by simp
next
  case False
  define x :: real where "x = of_int z"
  define e where "e = ilog2 \<bar>x\<bar>"
  have ax: "\<bar>x\<bar> = of_int \<bar>z\<bar>" by (simp add: x_def)
  from False have "1 \<le> \<bar>z\<bar>" by simp
  then have x1: "1 \<le> \<bar>x\<bar>"
    unfolding ax by (simp only: of_int_1_le_iff)
  then have "0 < \<bar>x\<bar>" by simp
  from ilog2_bounds [OF this] have b: "2 powi e \<le> \<bar>x\<bar>" "\<bar>x\<bar> < 2 powi (e + 1)"
    by (simp_all add: e_def)
  from assms have "of_int \<bar>z\<bar> \<le> (of_int (2 ^ 53) :: real)"
    by (simp only: of_int_le_iff)
  then have x53: "\<bar>x\<bar> \<le> 2 ^ 53"
    unfolding ax by simp
  from x1 b(2) have "(2::real) powi 0 < 2 powi (e + 1)" by simp
  then have e0: "0 \<le> e"
    by (metis power_int_increasing linorder_not_less one_le_numeral zle_add1_eq_le less_le_not_le
        not_less_iff_gr_or_eq)
  from b(1) x53 have "(2::real) powi e \<le> 2 powi 53" by simp
  then have e53: "e \<le> 53"
    by (metis power_int_strict_increasing linorder_not_less one_less_numeral_iff semiring_norm(76))
  have u: "ulp x = 2 powi (e - 52)"
    using e0 by (simp add: ulp_def e_def max_def)
  have "\<exists>w::int. x / ulp x = of_int w"
  proof (cases "e \<le> 52")
    case True
    then have "ulp x = 1 / 2 ^ nat (52 - e)"
      using powi_neg_nat [of "52 - e"] u by simp
    then have "x / ulp x = of_int (z * 2 ^ nat (52 - e))"
      by (simp add: x_def)
    then show ?thesis by blast
  next
    case False
    with e53 have e: "e = 53" by simp
    with b(1) x53 have "\<bar>x\<bar> = 2 ^ 53" by simp
    then have "(of_int \<bar>z\<bar> :: real) = of_int (2 ^ 53)"
      unfolding ax by simp
    then have "\<bar>z\<bar> = 2 ^ 53"
      by (simp only: of_int_eq_iff)
    then have "z = 2 ^ 53 \<or> z = - (2 ^ 53)" by linarith
    then have "even z" by auto
    then have "z = 2 * (z div 2)" by simp
    then have "x = 2 * of_int (z div 2)"
      unfolding x_def by (metis of_int_mult of_int_numeral)
    with u e show ?thesis by simp
  qed
  then obtain w :: int where w: "x / ulp x = of_int w" ..
  then have v: "of_int (round_half_even (x / ulp x)) * ulp x = x"
    by (simp add: field_simps) (metis w nonzero_eq_divide_eq mult.commute ulp_pos less_irrefl)
  from x53 have "\<bar>x\<bar> < 2 ^ 1024"
    by (rule le_less_trans) simp
  with False v show ?thesis
    by (simp add: fl_def Let_def x_def)
qed


lemma fl_exact:
  assumes "2 powi e \<le> \<bar>x\<bar>" and "\<bar>x\<bar> < 2 powi (e + 1)" and "- 1022 \<le> e" and "e \<le> 1023"
    and "x / 2 powi (e - 52) = of_int m"
  shows "fl x = Num x"
proof -
  have p: "(0::real) < 2 powi (e - 52)" by simp
  from assms(3) have mx: "max e (- 1022) = e" by simp
  from assms(5) p have x: "x = of_int m * 2 powi (e - 52)"
    by (simp add: field_simps)
  have "(2::real) powi (e + 1) \<le> 2 powi 1024"
    using assms(4) by (intro power_int_increasing) simp_all
  with assms(2) have "\<bar>x\<bar> < 2 ^ 1024" by simp
  with x have b: "\<bar>real_of_int m * 2 powi (max e (- 1022) - 52)\<bar> < 2 ^ 1024"
    by (simp only: mx)
  have r: "round_half_even (x / 2 powi (max e (- 1022) - 52)) = m"
    by (simp only: mx assms(5) round_half_even_of_int)
  from fl_eqI [OF assms(1,2) r b] x show ?thesis
    by (simp only: mx)
qed

subsection \<open>Arithmetic on finite numbers\<close>

lemma num_add_Num [simp]: "num_add (Num x) (Num y) = fl (x + y)"
  by (simp add: num_add_def)

lemma num_sub_Num [simp]: "num_sub (Num x) (Num y) = fl (x - y)"
  by (simp add: num_sub_def negate_def)

lemma num_mul_Num [simp]: "num_mul (Num x) (Num y) = fl (x * y)"
  by (simp add: num_mul_def)

lemma num_div_Num: "y \<noteq> 0 \<Longrightarrow> num_div (Num x) (Num y) = fl (x / y)"
  by (simp add: num_div_def)

lemma two_powi_53: "(2::real) powi 53 = 9007199254740992"
  by simp

lemma fl_numeral: "numeral w \<le> (2::int) ^ 53 \<Longrightarrow> fl (numeral w) = Num (numeral w)"
  using fl_of_int [of "numeral w"] by simp

lemma fl_1 [simp]: "fl 1 = Num 1"
  using fl_of_int [of 1] by simp


subsection \<open>Attempts of a job in the dead letter queue\<close>

text \<open>
  Claim C1 (every job in state \<open>dead\<close> has \<open>attempts \<ge> max_retries\<close>). The code does
  not establish it: the branch of \<open>incrementAttempts\<close> that moves a job to the DLQ never
  stores the new attempt count, which only the retry branch does. Here a job enqueued
  with \<open>max_retries = 1\<close> is claimed, fails once and is moved to the DLQ with
  \<open>attempts = 0\<close>, whatever \<open>Math.pow\<close> computes.
\<close>

theorem dlq_job_attempts_below_max_retries:
  "incrementAttempts pow 3000 ''j1'' (Num 2)
     (setJobError 3000 ''j1'' (Some ''Command failed with exit code 1: '')
       (snd (getNextJob 2000 ''worker_1''
         (snd (enqueue 1000 ''job_1000_x'' (a_request (Some ''j1'') ''exit 1'' (Some 1)) [])))))
   = Inr [\<lparr> job_id = ''j1'', command = ''exit 1'', state = Dead, attempts = 0, max_retries = 1,
            priority = 5, timeout = 300000, created_at = 1000, updated_at = 3000,
            next_retry_at = None, error = Some ''Command failed with exit code 1: '',
            locked_by = None, locked_at = None \<rparr>]"
  by code_simp

subsection \<open>Enqueue\<close>

text \<open>
  Claim C2, as stated (enqueue rejects an empty command and a colliding id, so ids are
  unique), fails: two requests with the id \<open>dup\<close>, the second with an empty command, are
  both stored.
\<close>

theorem enqueue_unvalidated_counterexample:
  "(let (j1, s1) = enqueue 1000 ''job_a'' (a_request (Some ''dup'') ''echo A'' None) [];
        (j2, s2) = enqueue 2000 ''job_b'' (a_request (Some ''dup'') [] None) s1
    in length s2 = 2 \<and> job_id (s2 ! 0) = job_id (s2 ! 1) \<and> command j2 = [] \<and> s2 ! 1 = j2)"
  by (simp add: enqueue_def a_request_def truthy_def or_default_def Let_def)

text \<open>
  Claim C2, amended. \<open>enqueue\<close> validates nothing and cannot fail: it appends one job in
  state \<open>pending\<close> with \<open>attempts = 0\<close>, with the supplied id when one is given and the
  generated id otherwise, and with the command as supplied. The ids of the store stay
  pairwise different exactly when they were before and the new job's id is not among them.
\<close>

theorem enqueue_appends_without_validation:
  "\<exists>job. enqueue now gen jobData jobs = (job, jobs @ [job]) \<and>
     job_id job = (if truthy (jd_id jobData) then the (jd_id jobData) else gen) \<and>
     command job = jd_command jobData \<and> state job = Pending \<and> attempts job = 0 \<and>
     created_at job = now \<and> updated_at job = now \<and>
     (distinct (map job_id (jobs @ [job])) \<longleftrightarrow>
        distinct (map job_id jobs) \<and> job_id job \<notin> job_id ` set jobs)"
  by (auto simp: enqueue_def Let_def)

theorem enqueue_appends_without_validation_witness:
  "distinct (map job_id (snd (enqueue 2000 ''job_b'' (a_request None ''echo B'' None)
                                [a_job ''j1'' Pending 0 3 5 1])))"
proof -
  from enqueue_appends_without_validation
    [of 2000 "''job_b''" "a_request None ''echo B'' None" "[a_job ''j1'' Pending 0 3 5 1]"]
  obtain job where
    e: "enqueue 2000 ''job_b'' (a_request None ''echo B'' None) [a_job ''j1'' Pending 0 3 5 1]
          = (job, [a_job ''j1'' Pending 0 3 5 1] @ [job])"
    and i: "job_id job = (if truthy (jd_id (a_request None ''echo B'' None))
                          then the (jd_id (a_request None ''echo B'' None)) else ''job_b'')"
    and d: "distinct (map job_id ([a_job ''j1'' Pending 0 3 5 1] @ [job])) \<longleftrightarrow>
            distinct (map job_id [a_job ''j1'' Pending 0 3 5 1]) \<and>
            job_id job \<notin> job_id ` set [a_job ''j1'' Pending 0 3 5 1]"
    by blast
  from i have "job_id job = ''job_b''"
    by (simp add: a_request_def truthy_def)
  with d have "distinct (map job_id ([a_job ''j1'' Pending 0 3 5 1] @ [job]))"
    by (simp add: a_job_def)
  with e show ?thesis by simp
qed

subsection \<open>Which job \<open>getNextJob\<close> claims\<close>

text \<open>When some job passes the filter, \<open>getNextJob\<close> claims a job of least priority
  value that passes it, and among those the one stored first; it sets the state, the two
  lock fields and \<open>updated_at\<close> of that job and nothing else. The first in the store is
  the one with the oldest \<open>created_at\<close> only as long as the store is in \<open>created_at\<close>
  order.\<close>

lemma getNextJob_claims_first_of_least_priority:
  assumes "\<exists>j \<in> set jobs. eligible now j"
  shows "\<exists>idx < length jobs.
           eligible now (jobs ! idx) \<and>
           (\<forall>k < length jobs. eligible now (jobs ! k) \<longrightarrow> priority (jobs ! idx) \<le> priority (jobs ! k)) \<and>
           (\<forall>k < idx. eligible now (jobs ! k) \<longrightarrow> priority (jobs ! idx) < priority (jobs ! k)) \<and>
           (sorted (map created_at jobs) \<longrightarrow>
              (\<forall>k < length jobs. eligible now (jobs ! k) \<and> priority (jobs ! k) = priority (jobs ! idx)
                  \<longrightarrow> created_at (jobs ! idx) \<le> created_at (jobs ! k))) \<and>
           getNextJob now workerId jobs =
             (Some ((jobs ! idx)\<lparr> state := Processing, locked_by := Some workerId,
                                   locked_at := Some now, updated_at := now \<rparr>),
              jobs[idx := (jobs ! idx)\<lparr> state := Processing, locked_by := Some workerId,
                                        locked_at := Some now, updated_at := now \<rparr>])"
proof -
  from getNextJob_Some [OF assms, of workerId] obtain idx where h: "idx < length jobs"
    "eligible now (jobs ! idx)"
    "\<forall>k < length jobs. eligible now (jobs ! k) \<longrightarrow> priority (jobs ! idx) \<le> priority (jobs ! k)"
    "\<forall>k < idx. eligible now (jobs ! k) \<longrightarrow> priority (jobs ! idx) < priority (jobs ! k)"
    "getNextJob now workerId jobs =
             (Some ((jobs ! idx)\<lparr> state := Processing, locked_by := Some workerId,
                                   locked_at := Some now, updated_at := now \<rparr>),
              jobs[idx := (jobs ! idx)\<lparr> state := Processing, locked_by := Some workerId,
                                        locked_at := Some now, updated_at := now \<rparr>])"
    by blast
  have "created_at (jobs ! idx) \<le> created_at (jobs ! k)"
    if s: "sorted (map created_at jobs)" and k: "k < length jobs" "eligible now (jobs ! k)"
      "priority (jobs ! k) = priority (jobs ! idx)" for k
  proof -
    from h(4) k have "idx \<le> k" by (metis less_irrefl not_le_imp_less)
    with s k(1) have "map created_at jobs ! idx \<le> map created_at jobs ! k"
      by (intro sorted_nth_mono) simp_all
    with h(1) k(1) show ?thesis by simp
  qed
  with h show ?thesis by blast
qed

text \<open>The strings are compared, not the instants: a retry instant after the year 9999 is
  rendered with a leading \<open>+\<close>, which sorts before every digit, so the job counts as due
  at once.\<close>

lemma eligible_compares_strings:
  "iso 1000000000003000 = ''+033658-09-27T01:46:43.000Z''
   \<and> iso 4000 = ''1970-01-01T00:00:04.000Z''
   \<and> eligible 4000 ((a_job ''j1'' Failed 1 3 5 1000)\<lparr> next_retry_at := Some 1000000000003000 \<rparr>)
   \<and> \<not> eligible 4000 ((a_job ''j1'' Failed 1 3 5 1000)\<lparr> next_retry_at := Some 5000 \<rparr>)"
  by code_simp

text \<open>
  Claim C3 (\<open>getNextJob\<close> returns an eligible job of least priority and breaks ties in
  priority by the older \<open>created_at\<close>). The code does not: it sorts the eligible jobs by
  priority alone, so a tie goes to the job stored first, and \<open>created_at\<close> is never
  compared. Here \<open>late\<close> is enqueued at clock \<open>2000\<close> and \<open>early\<close> after it at clock
  \<open>1000\<close> (the wall clock has stepped back), both with the default priority 5; both are
  pending, \<open>early\<close> has the older \<open>created_at\<close>, and \<open>getNextJob\<close> claims \<open>late\<close>.
\<close>

theorem getNextJob_tie_goes_to_first_stored:
  "(let (late, s1) = enqueue 2000 ''job_2000_a'' (a_request (Some ''late'') ''echo A'' None) [];
        (early, s2) = enqueue 1000 ''job_1000_b'' (a_request (Some ''early'') ''echo B'' None) s1
    in s2 = [late, early]
       \<and> eligible 3000 late \<and> eligible 3000 early
       \<and> priority early = priority late
       \<and> created_at early < created_at late
       \<and> getNextJob 3000 ''worker_1'' s2 =
           (Some (late\<lparr> state := Processing, locked_by := Some ''worker_1'',
                        locked_at := Some 3000, updated_at := 3000 \<rparr>),
            [late\<lparr> state := Processing, locked_by := Some ''worker_1'',
                   locked_at := Some 3000, updated_at := 3000 \<rparr>, early]))"
  by code_simp


subsection \<open>The retry policy\<close>

text \<open>The instant \<open>Date.now() + delaySeconds * 1000\<close> as \<open>new Date\<close> keeps it: exact when
  the delay is a whole number of seconds, within two milliseconds otherwise, and no
  instant at all when the delay is not finite.\<close>

lemma retry_instant_exact:
  assumes "0 \<le> k" and "0 \<le> now" and "now + k * 1000 \<le> max_time"
  shows "timeClip (num_add (Num (of_int now)) (num_mul (Num (of_int k)) (Num 1000)))
           = Some (now + k * 1000)"
proof -
  from assms have "\<bar>k * 1000\<bar> \<le> 2 ^ 53" and "\<bar>now + k * 1000\<bar> \<le> 2 ^ 53"
    by (simp_all add: max_time_def)
  from fl_of_int [OF this(1)] fl_of_int [OF this(2)]
  have "num_add (Num (of_int now)) (num_mul (Num (of_int k)) (Num 1000))
          = Num (of_int (now + k * 1000))"
    by simp
  moreover from assms have "\<bar>real_of_int (now + k * 1000)\<bar> \<le> of_int max_time"
    by (simp only: of_int_abs [symmetric] of_int_le_iff)
  moreover from assms have "(0::real) \<le> of_int (now + k * 1000)"
    by simp
  ultimately show ?thesis
    by (simp only: timeClip_def jsnum.case if_True floor_of_int)
qed

lemma retry_instant_near:
  assumes "0 \<le> d" and "0 \<le> now" and "of_int now + d * 1000 \<le> of_int max_time - 1"
  shows "\<exists>t. timeClip (num_add (Num (of_int now)) (num_mul (Num d) (Num 1000))) = Some t \<and>
             \<bar>of_int t - (of_int now + d * 1000)\<bar> < 2"
proof -
  from assms have n: "(0::real) \<le> of_int now" by simp
  from assms n have "\<bar>d * 1000\<bar> < 2 powi 53"
    by (simp add: max_time_def)
  from fl_error [OF this] obtain m where m: "fl (d * 1000) = Num m" "\<bar>m - d * 1000\<bar> \<le> 1 / 2"
    by auto
  from assms(3) have a3: "of_int now + d * 1000 \<le> 8639999999999999"
    by (simp add: max_time_def)
  from m(2) a3 n assms(1) have "\<bar>of_int now + m\<bar> < 9007199254740992"
    by linarith
  then have "\<bar>of_int now + m\<bar> < 2 powi 53"
    by simp
  from fl_error [OF this] obtain s where s: "fl (of_int now + m) = Num s"
    "\<bar>s - (of_int now + m)\<bar> \<le> 1 / 2"
    by auto
  from m(2) s(2) have near: "\<bar>s - (of_int now + d * 1000)\<bar> \<le> 1"
    by linarith
  with a3 n assms(1) have "\<bar>s\<bar> \<le> 8640000000000000"
    by linarith
  then have r: "\<bar>s\<bar> \<le> of_int max_time"
    by (simp add: max_time_def)
  define t where "t = (if 0 \<le> s then \<lfloor>s\<rfloor> else \<lceil>s\<rceil>)"
  have "\<bar>of_int t - s\<bar> < 1"
    unfolding t_def by (auto; linarith)
  with near have "\<bar>of_int t - (of_int now + d * 1000)\<bar> < 2"
    by linarith
  moreover from m(1) s(1) r
  have "timeClip (num_add (Num (of_int now)) (num_mul (Num d) (Num 1000))) = Some t"
    by (simp add: timeClip_def t_def)
  ultimately show ?thesis by blast
qed

lemma retry_instant_not_finite:
  assumes "d \<in> {NaN, PosInf, NegInf}"
  shows "timeClip (num_add (Num x) (num_mul d (Num 1000))) = None"
  using assms
  by (auto simp: timeClip_def num_add_def num_mul_def signed_inf_def is_negative_def)

text \<open>
  Claim C4, as stated (a job short of \<open>max_retries\<close> always moves to \<open>failed\<close> with
  \<open>next_retry_at = now + backoff_base^attempts'\<close> seconds), fails where that instant is
  not one a \<open>Date\<close> can hold: with a backoff base of \<open>10^13\<close> the first failure throws the
  \<open>RangeError\<close> of \<open>toISOString\<close>.
\<close>

theorem incrementAttempts_out_of_range_counterexample:
  "int (attempts (a_job ''j1'' Processing 0 3 5 1762000000000) + 1)
      < max_retries (a_job ''j1'' Processing 0 3 5 1762000000000)
   \<and> incrementAttempts exact_pow 1762000001000 ''j1'' (Num 10000000000000)
        [a_job ''j1'' Processing 0 3 5 1762000000000] = Inl RangeError"
proof -
  have a: "fl 10000000000000000 = Num 10000000000000000"
    using fl_exact [of 53 10000000000000000 5000000000000000] by simp
  have b: "fl 10001762000001000 = Num 10001762000001000"
    using fl_exact [of 53 10001762000001000 5000881000000500] by simp
  show ?thesis
    by (simp add: incrementAttempts_def a_job_def exact_pow_def fl_numeral a b timeClip_def
        toISOString_def max_time_def)
qed

text \<open>
  Claim C4, amended. For the first job with the given id, with \<open>attempts' = attempts + 1\<close>:
  if \<open>attempts' \<ge> max_retries\<close> the job moves to \<open>dead\<close> with \<open>locked_by\<close> and
  \<open>locked_at\<close> cleared. Otherwise the retry instant is computed in double arithmetic as
  \<open>now + Math.pow(backoff_base, attempts') * 1000\<close> ms and truncated to whole
  milliseconds by \<open>new Date\<close>. If that is a time value a \<open>Date\<close> can hold, the job moves
  to \<open>failed\<close> with \<open>attempts'\<close> stored, \<open>next_retry_at\<close> set to that instant and the lock
  fields cleared; if it is not, which is so whenever the power is not finite,
  \<open>incrementAttempts\<close> throws a \<open>RangeError\<close> and writes nothing. For \<open>now \<ge> 0\<close> and a
  power \<open>d \<ge> 0\<close> the stored instant is exactly \<open>now + d\<close> seconds when \<open>d\<close> is a whole
  number and that instant is at most \<open>8.64e15\<close> ms, and within 2 ms of \<open>now + d\<close> seconds
  when that instant is at most \<open>8.64e15 - 1\<close> ms.
\<close>

theorem incrementAttempts_retry_policy:
  assumes "i < length jobs" and "job_id (jobs ! i) = jobId"
    and "\<forall>k < i. job_id (jobs ! k) \<noteq> jobId"
  shows
    "(let job = jobs ! i;
          n = attempts job + 1;
          dead = jobs[i := job\<lparr> state := Dead, updated_at := now,
                                 locked_by := None, locked_at := None \<rparr>];
          failed = (\<lambda>t. jobs[i := job\<lparr> attempts := n, state := Failed,
                                        next_retry_at := Some t, updated_at := now,
                                        locked_by := None, locked_at := None \<rparr>]);
          r = incrementAttempts pow now jobId backoffBase jobs
      in (max_retries job \<le> int n \<longrightarrow> r = Inr dead)
       \<and> (int n < max_retries job \<longrightarrow>
            r = (case timeClip (num_add (Num (of_int now))
                                  (num_mul (pow backoffBase n) (Num 1000))) of
                   None \<Rightarrow> Inl RangeError
                 | Some t \<Rightarrow> Inr (failed t))
          \<and> (pow backoffBase n \<in> {NaN, PosInf, NegInf} \<longrightarrow> r = Inl RangeError)
          \<and> (\<forall>k. pow backoffBase n = Num (of_int k) \<and> 0 \<le> k \<and> 0 \<le> now \<and>
                   now + k * 1000 \<le> max_time \<longrightarrow>
                 r = Inr (failed (now + k * 1000)))
          \<and> (\<forall>d. pow backoffBase n = Num d \<and> 0 \<le> d \<and> 0 \<le> now \<and>
                   of_int now + d * 1000 \<le> of_int max_time - 1 \<longrightarrow>
                 (\<exists>t. r = Inr (failed t) \<and> \<bar>of_int t - (of_int now + d * 1000)\<bar> < 2))))"
proof -
  define job where "job = jobs ! i"
  define n where "n = attempts job + 1"
  define failed where "failed = (\<lambda>t. jobs[i := job\<lparr> attempts := n, state := Failed,
                                        next_retry_at := Some t, updated_at := now,
                                        locked_by := None, locked_at := None \<rparr>])"
  define r where "r = incrementAttempts pow now jobId backoffBase jobs"
  define c where "c = timeClip (num_add (Num (of_int now)) (num_mul (pow backoffBase n) (Num 1000)))"
  from assms have f: "findIndex (\<lambda>j. job_id j = jobId) jobs = Some i"
    by (simp add: findIndex_Some_iff)
  have dead: "r = Inr (jobs[i := job\<lparr> state := Dead, updated_at := now,
                                      locked_by := None, locked_at := None \<rparr>])"
    if "max_retries job \<le> int n"
    using that f by (simp add: r_def incrementAttempts_def Let_def job_def n_def)
  have retry: "r = (case c of None \<Rightarrow> Inl RangeError | Some t \<Rightarrow> Inr (failed t))"
    if "int n < max_retries job"
    using that f
    by (simp add: r_def c_def incrementAttempts_def toISOString_def Let_def job_def n_def
        failed_def split: option.splits)
  have inf: "r = Inl RangeError"
    if "int n < max_retries job" "pow backoffBase n \<in> {NaN, PosInf, NegInf}"
    using retry [OF that(1)] retry_instant_not_finite [OF that(2), of "of_int now"]
    by (simp add: c_def)
  have whole: "r = Inr (failed (now + k * 1000))"
    if "int n < max_retries job" "pow backoffBase n = Num (of_int k)" "0 \<le> k" "0 \<le> now"
      "now + k * 1000 \<le> max_time" for k
    using retry [OF that(1)] retry_instant_exact [OF that(3,4,5)] that(2)
    by (simp add: c_def)
  have near: "\<exists>t. r = Inr (failed t) \<and> \<bar>of_int t - (of_int now + d * 1000)\<bar> < 2"
    if "int n < max_retries job" "pow backoffBase n = Num d" "0 \<le> d" "0 \<le> now"
      "of_int now + d * 1000 \<le> of_int max_time - 1" for d
    using retry [OF that(1)] retry_instant_near [OF that(3,4,5)] that(2)
    by (auto simp: c_def)
  from dead retry inf whole near show ?thesis
    unfolding Let_def failed_def r_def c_def n_def job_def
    by blast
qed

theorem incrementAttempts_retry_policy_witness:
  "incrementAttempts exact_pow 1000 ''j2'' (Num 2)
       [a_job ''j1'' Pending 0 3 5 1, a_job ''j2'' Processing 0 2 5 2] =
     Inr [a_job ''j1'' Pending 0 3 5 1,
          (a_job ''j2'' Failed 1 2 5 2)\<lparr> next_retry_at := Some 3000, updated_at := 1000 \<rparr>]
   \<and> incrementAttempts exact_pow 4000 ''j2'' (Num 2)
       [a_job ''j1'' Pending 0 3 5 1, a_job ''j2'' Processing 1 2 5 2] =
     Inr [a_job ''j1'' Pending 0 3 5 1, (a_job ''j2'' Dead 1 2 5 2)\<lparr> updated_at := 4000 \<rparr>]
   \<and> incrementAttempts exact_pow 1000 ''j2'' (Num (3 / 2))
       [a_job ''j1'' Pending 0 3 5 1, a_job ''j2'' Processing 3 5 5 2] =
     Inr [a_job ''j1'' Pending 0 3 5 1,
          (a_job ''j2'' Failed 4 5 5 2)\<lparr> next_retry_at := Some 6062, updated_at := 1000 \<rparr>]"
proof -
  have 1: "incrementAttempts exact_pow 1000 ''j2'' (Num 2)
       [a_job ''j1'' Pending 0 3 5 1, a_job ''j2'' Processing 0 2 5 2] =
     Inr [a_job ''j1'' Pending 0 3 5 1,
          (a_job ''j2'' Failed 1 2 5 2)\<lparr> next_retry_at := Some 3000, updated_at := 1000 \<rparr>]"
    using incrementAttempts_retry_policy
      [where i = 1 and jobs = "[a_job ''j1'' Pending 0 3 5 1, a_job ''j2'' Processing 0 2 5 2]"
         and jobId = "''j2''" and now = 1000 and pow = exact_pow and backoffBase = "Num 2"]
    by (simp add: a_job_def exact_pow_def fl_numeral timeClip_def max_time_def Let_def)
  have 2: "incrementAttempts exact_pow 4000 ''j2'' (Num 2)
       [a_job ''j1'' Pending 0 3 5 1, a_job ''j2'' Processing 1 2 5 2] =
     Inr [a_job ''j1'' Pending 0 3 5 1, (a_job ''j2'' Dead 1 2 5 2)\<lparr> updated_at := 4000 \<rparr>]"
    using incrementAttempts_retry_policy
      [where i = 1 and jobs = "[a_job ''j1'' Pending 0 3 5 1, a_job ''j2'' Processing 1 2 5 2]"
         and jobId = "''j2''" and now = 4000 and pow = exact_pow and backoffBase = "Num 2"]
    by (simp add: a_job_def Let_def)
  have a: "fl (81 / 16) = Num (81 / 16)"
    using fl_exact [of 2 "81 / 16" 5699868278390784] by simp
  have b: "fl (10125 / 2) = Num (10125 / 2)"
    using fl_exact [of 12 "10125 / 2" 5566277615616000] by simp
  have c: "fl (12125 / 2) = Num (12125 / 2)"
    using fl_exact [of 12 "12125 / 2" 6665789243392000] by simp
  have "exact_pow (Num (3 / 2)) 4 = Num (81 / 16)"
    by (simp add: exact_pow_def power_divide a)
  then have "timeClip (num_add (Num (of_int 1000)) (num_mul (exact_pow (Num (3 / 2)) 4) (Num 1000)))
               = Some 6062"
    by (simp add: b c timeClip_def max_time_def)
  then have 3: "incrementAttempts exact_pow 1000 ''j2'' (Num (3 / 2))
       [a_job ''j1'' Pending 0 3 5 1, a_job ''j2'' Processing 3 5 5 2] =
     Inr [a_job ''j1'' Pending 0 3 5 1,
          (a_job ''j2'' Failed 4 5 5 2)\<lparr> next_retry_at := Some 6062, updated_at := 1000 \<rparr>]"
    using incrementAttempts_retry_policy
      [where i = 1 and jobs = "[a_job ''j1'' Pending 0 3 5 1, a_job ''j2'' Processing 3 5 5 2]"
         and jobId = "''j2''" and now = 1000 and pow = exact_pow and backoffBase = "Num (3 / 2)"]
    by (simp add: a_job_def Let_def)
  from 1 2 3 show ?thesis by blast
qed


subsection \<open>Preconditions of complete, cancel and retry\<close>

text \<open>
  Claim C5, as stated, fails: \<open>updateJobState\<close> completes a job that is \<open>pending\<close>,
  completes a \<open>completed\<close> job a second time, and \<open>cancelJob\<close> cancels a job that is
  already \<open>cancelled\<close>, all without an error.
\<close>

theorem complete_cancel_counterexample:
  "updateJobState 5000 ''j1'' Completed None [a_job ''j1'' Pending 0 3 5 1]
     = [(a_job ''j1'' Completed 0 3 5 1)\<lparr> updated_at := 5000 \<rparr>]
   \<and> updateJobState 6000 ''j1'' Completed None [(a_job ''j1'' Completed 0 3 5 1)\<lparr> updated_at := 5000 \<rparr>]
     = [(a_job ''j1'' Completed 0 3 5 1)\<lparr> updated_at := 6000 \<rparr>]
   \<and> cancelJob 6000 ''j2'' [a_job ''j2'' Cancelled 0 3 5 1]
     = Inr [(a_job ''j2'' Cancelled 0 3 5 1)\<lparr> updated_at := 6000 \<rparr>]"
  by (simp add: updateJobState_def cancelJob_def a_job_def)

text \<open>
  Claim C5, amended. For a job present in the store, \<open>updateJobState\<close> (complete) has no
  precondition: whatever the current state, it sets the state and the error, bumps
  \<open>updated_at\<close> and clears the lock fields. \<open>cancelJob\<close> is rejected exactly for a job
  in \<open>processing\<close> or \<open>completed\<close> and succeeds from every other state, \<open>cancelled\<close>
  included. \<open>retryFromDLQ\<close> is rejected when no job with the id is \<open>dead\<close>, so also for a
  job that was already revived.
\<close>

theorem complete_cancel_retry_preconditions:
  assumes "i < length jobs" and "job_id (jobs ! i) = jobId"
    and "\<forall>k < i. job_id (jobs ! k) \<noteq> jobId"
  shows "updateJobState now jobId st err jobs =
           jobs[i := (jobs ! i)\<lparr> state := st, error := err, updated_at := now,
                                  locked_by := None, locked_at := None \<rparr>]
       \<and> cancelJob now jobId jobs =
           (if state (jobs ! i) = Processing then Inl CannotCancelProcessing
            else if state (jobs ! i) = Completed then Inl CannotCancelCompleted
            else Inr (jobs[i := (jobs ! i)\<lparr> state := Cancelled, updated_at := now,
                                             locked_by := None, locked_at := None \<rparr>]))
       \<and> ((\<forall>j \<in> set jobs. job_id j = jobId \<longrightarrow> state j \<noteq> Dead) \<longrightarrow>
            retryFromDLQ now jobId jobs = Inl (NotFoundInDLQ jobId))"
proof -
  from assms have f: "findIndex (\<lambda>j. job_id j = jobId) jobs = Some i"
    by (simp add: findIndex_Some_iff)
  have "findIndex (\<lambda>j. job_id j = jobId \<and> state j = Dead) jobs = None"
    if "\<forall>j \<in> set jobs. job_id j = jobId \<longrightarrow> state j \<noteq> Dead"
    using that by (simp add: findIndex_None)
  with f show ?thesis
    by (simp add: updateJobState_def cancelJob_def retryFromDLQ_def)
qed

theorem complete_cancel_retry_preconditions_witness:
  "updateJobState 7000 ''j1'' Completed None [a_job ''j1'' Failed 1 3 5 1]
     = [(a_job ''j1'' Completed 1 3 5 1)\<lparr> updated_at := 7000 \<rparr>]
   \<and> cancelJob 7000 ''j1'' [a_job ''j1'' Failed 1 3 5 1]
     = Inr [(a_job ''j1'' Cancelled 1 3 5 1)\<lparr> updated_at := 7000 \<rparr>]
   \<and> cancelJob 7000 ''j1'' [a_job ''j1'' Processing 1 3 5 1] = Inl CannotCancelProcessing
   \<and> retryFromDLQ 7000 ''j1'' [a_job ''j1'' Pending 0 3 5 1] = Inl (NotFoundInDLQ ''j1'')"
  using complete_cancel_retry_preconditions [of 0 "[a_job ''j1'' Failed 1 3 5 1]" "''j1''" 7000 Completed None]
    complete_cancel_retry_preconditions [of 0 "[a_job ''j1'' Processing 1 3 5 1]" "''j1''" 7000 Completed None]
    complete_cancel_retry_preconditions [of 0 "[a_job ''j1'' Pending 0 3 5 1]" "''j1''" 7000 Completed None]
  by (simp add: a_job_def)


subsection \<open>Jobs \<open>getNextJob\<close> does not claim\<close>

text \<open>A job whose retry was scheduled past the year 9999 is claimed at once. The store
  here is the one left by \<open>enqueue\<close>, \<open>getNextJob\<close> and a failure with a backoff
  base of \<open>10^12\<close>; one second later the job is due by the comparison of the strings.\<close>

lemma getNextJob_claims_retry_past_year_9999:
  "incrementAttempts exact_pow 3000 ''j1'' (Num 1000000000000)
     (snd (getNextJob 2000 ''worker_1''
       (snd (enqueue 1000 ''job_1000_x'' (a_request (Some ''j1'') ''exit 1'' None) []))))
     = Inr [(a_job ''j1'' Failed 1 3 5 1000)\<lparr> next_retry_at := Some 1000000000003000,
                                                updated_at := 3000 \<rparr>]
   \<and> fst (getNextJob 4000 ''worker_2''
            [(a_job ''j1'' Failed 1 3 5 1000)\<lparr> next_retry_at := Some 1000000000003000,
                                               updated_at := 3000 \<rparr>])
     = Some ((a_job ''j1'' Processing 1 3 5 1000)\<lparr> next_retry_at := Some 1000000000003000,
                 locked_by := Some ''worker_2'', locked_at := Some 4000, updated_at := 4000 \<rparr>)"
proof -
  have "snd (getNextJob 2000 ''worker_1''
          (snd (enqueue 1000 ''job_1000_x'' (a_request (Some ''j1'') ''exit 1'' None) [])))
        = [(a_job ''j1'' Processing 0 3 5 1000)\<lparr> locked_by := Some ''worker_1'',
                locked_at := Some 2000, updated_at := 2000 \<rparr>]"
    by code_simp
  then have "incrementAttempts exact_pow 3000 ''j1'' (Num 1000000000000)
     (snd (getNextJob 2000 ''worker_1''
       (snd (enqueue 1000 ''job_1000_x'' (a_request (Some ''j1'') ''exit 1'' None) []))))
     = Inr [(a_job ''j1'' Failed 1 3 5 1000)\<lparr> next_retry_at := Some 1000000000003000,
                                                updated_at := 3000 \<rparr>]"
    by (simp add: incrementAttempts_def a_job_def exact_pow_def fl_numeral timeClip_def
        toISOString_def max_time_def)
  moreover have "fst (getNextJob 4000 ''worker_2''
            [(a_job ''j1'' Failed 1 3 5 1000)\<lparr> next_retry_at := Some 1000000000003000,
                                               updated_at := 3000 \<rparr>])
     = Some ((a_job ''j1'' Processing 1 3 5 1000)\<lparr> next_retry_at := Some 1000000000003000,
                 locked_by := Some ''worker_2'', locked_at := Some 4000, updated_at := 4000 \<rparr>)"
    by code_simp
  ultimately show ?thesis by (rule conjI)
qed

text \<open>
  Claim C6, as stated for every store state, fails: a \<open>completed\<close> job that still
  carries a lock holder and a stale \<open>locked_at\<close> passes the stale-lock test of the filter
  and is claimed again.
\<close>

theorem getNextJob_stale_completed_counterexample:
  "state ((a_job ''done'' Completed 0 3 5 1000)\<lparr> locked_by := Some ''worker_9'', locked_at := Some 2000 \<rparr>)
     = Completed
   \<and> getNextJob 1000000 ''worker_1''
        [(a_job ''done'' Completed 0 3 5 1000)\<lparr> locked_by := Some ''worker_9'', locked_at := Some 2000 \<rparr>]
     = (Some ((a_job ''done'' Processing 0 3 5 1000)\<lparr> locked_by := Some ''worker_1'',
                  locked_at := Some 1000000, updated_at := 1000000 \<rparr>),
        [(a_job ''done'' Processing 0 3 5 1000)\<lparr> locked_by := Some ''worker_1'',
                  locked_at := Some 1000000, updated_at := 1000000 \<rparr>])"
  by code_simp

text \<open>
  Claim C6, amended. \<open>getNextJob\<close> never claims a \<open>cancelled\<close> job. In every store where
  no \<open>completed\<close> or \<open>dead\<close> job carries a lock holder (every reachable store is one, by
  \<open>reachable_no_finished_lock\<close>) it claims no \<open>completed\<close> or \<open>dead\<close> job either, however
  old their \<open>locked_at\<close> is. When no job is eligible it returns nothing and leaves the
  store as it was.
\<close>

theorem getNextJob_skips_unlocked_finished_jobs:
  "if \<exists>j \<in> set jobs. eligible now j
   then \<exists>idx < length jobs.
          state (jobs ! idx) \<noteq> Cancelled \<and>
          ((\<forall>j \<in> set jobs. state j \<in> {Completed, Dead} \<longrightarrow> \<not> truthy (locked_by j)) \<longrightarrow>
             state (jobs ! idx) \<notin> {Completed, Dead}) \<and>
          getNextJob now workerId jobs =
            (Some ((jobs ! idx)\<lparr> state := Processing, locked_by := Some workerId,
                                  locked_at := Some now, updated_at := now \<rparr>),
             jobs[idx := (jobs ! idx)\<lparr> state := Processing, locked_by := Some workerId,
                                       locked_at := Some now, updated_at := now \<rparr>])
   else getNextJob now workerId jobs = (None, jobs)"
proof (cases "\<exists>j \<in> set jobs. eligible now j")
  case False
  then show ?thesis
    using getNextJob_None [of jobs now workerId] by simp
next
  case True
  from getNextJob_Some [OF True, of workerId] obtain idx where h: "idx < length jobs"
    "eligible now (jobs ! idx)"
    "getNextJob now workerId jobs =
             (Some ((jobs ! idx)\<lparr> state := Processing, locked_by := Some workerId,
                                   locked_at := Some now, updated_at := now \<rparr>),
              jobs[idx := (jobs ! idx)\<lparr> state := Processing, locked_by := Some workerId,
                                        locked_at := Some now, updated_at := now \<rparr>])"
    by blast
  from eligible_state [OF h(2)] have e: "state (jobs ! idx) \<noteq> Cancelled"
    "state (jobs ! idx) \<in> {Pending, Failed} \<or> truthy (locked_by (jobs ! idx))"
    by simp_all
  have "state (jobs ! idx) \<notin> {Completed, Dead}"
    if "\<forall>j \<in> set jobs. state j \<in> {Completed, Dead} \<longrightarrow> \<not> truthy (locked_by j)"
  proof -
    from h(1) have "jobs ! idx \<in> set jobs" by simp
    with that have "state (jobs ! idx) \<in> {Completed, Dead} \<longrightarrow> \<not> truthy (locked_by (jobs ! idx))"
      by blast
    with e(2) show ?thesis by auto
  qed
  with h(1,3) e(1) True show ?thesis by auto
qed

theorem getNextJob_skips_unlocked_finished_jobs_witness:
  "getNextJob 1000000 ''worker_1''
      [(a_job ''done'' Completed 0 3 5 1000)\<lparr> locked_at := Some 2000 \<rparr>,
       a_job ''gone'' Dead 2 3 1 2000, a_job ''off'' Cancelled 0 3 1 3000]
     = (None, [(a_job ''done'' Completed 0 3 5 1000)\<lparr> locked_at := Some 2000 \<rparr>,
               a_job ''gone'' Dead 2 3 1 2000, a_job ''off'' Cancelled 0 3 1 3000])
   \<and> fst (getNextJob 1000000 ''worker_1'' [a_job ''done'' Completed 0 3 1 1000, a_job ''next'' Pending 0 3 5 2000])
     = Some ((a_job ''next'' Processing 0 3 5 2000)\<lparr> locked_by := Some ''worker_1'',
                  locked_at := Some 1000000, updated_at := 1000000 \<rparr>)"
proof -
  let ?a = "[(a_job ''done'' Completed 0 3 5 1000)\<lparr> locked_at := Some 2000 \<rparr>,
             a_job ''gone'' Dead 2 3 1 2000, a_job ''off'' Cancelled 0 3 1 3000]"
  let ?b = "[a_job ''done'' Completed 0 3 1 1000, a_job ''next'' Pending 0 3 5 2000]"
  from getNextJob_skips_unlocked_finished_jobs [of ?a 1000000 "''worker_1''"]
  have a: "getNextJob 1000000 ''worker_1'' ?a = (None, ?a)"
    by (simp add: eligible_def a_job_def truthy_def)
  have "\<exists>j \<in> set ?b. eligible 1000000 j"
    by (simp add: eligible_def a_job_def)
  with getNextJob_skips_unlocked_finished_jobs [of ?b 1000000 "''worker_1''"]
  obtain idx where idx: "idx < length ?b"
    and fin: "(\<forall>j \<in> set ?b. state j \<in> {Completed, Dead} \<longrightarrow> \<not> truthy (locked_by j)) \<longrightarrow>
                state (?b ! idx) \<notin> {Completed, Dead}"
    and res: "getNextJob 1000000 ''worker_1'' ?b =
                  (Some ((?b ! idx)\<lparr> state := Processing, locked_by := Some ''worker_1'',
                                        locked_at := Some 1000000, updated_at := 1000000 \<rparr>),
                   ?b[idx := (?b ! idx)\<lparr> state := Processing, locked_by := Some ''worker_1'',
                                             locked_at := Some 1000000, updated_at := 1000000 \<rparr>])"
    by (simp only: if_True) blast
  have "\<forall>j \<in> set ?b. state j \<in> {Completed, Dead} \<longrightarrow> \<not> truthy (locked_by j)"
    by (simp add: a_job_def truthy_def)
  with fin have "state (?b ! idx) \<notin> {Completed, Dead}" by blast
  with idx have "idx = 1"
    by (cases idx) (simp_all add: a_job_def)
  with res have "fst (getNextJob 1000000 ''worker_1'' ?b) =
     Some ((a_job ''next'' Processing 0 3 5 2000)\<lparr> locked_by := Some ''worker_1'',
                  locked_at := Some 1000000, updated_at := 1000000 \<rparr>)"
    by (simp add: a_job_def)
  with a show ?thesis by simp
qed


subsection \<open>Revival from the dead letter queue\<close>

text \<open>
  Claim C7. \<open>retryFromDLQ\<close> succeeds exactly when the store holds a job with the given id in
  state \<open>dead\<close>, and fails with its not-found-in-DLQ error otherwise. On success the first
  such job has state \<open>pending\<close>, \<open>attempts = 0\<close>, \<open>error = null\<close> and
  \<open>next_retry_at = null\<close>, and every other job is as before.
\<close>

theorem retryFromDLQ_revives_dead_only:
  "(if \<exists>j \<in> set jobs. job_id j = jobId \<and> state j = Dead
    then \<exists>i < length jobs.
           job_id (jobs ! i) = jobId \<and> state (jobs ! i) = Dead \<and>
           (\<forall>k < i. \<not> (job_id (jobs ! k) = jobId \<and> state (jobs ! k) = Dead)) \<and>
           (\<exists>jobs'. retryFromDLQ now jobId jobs = Inr jobs' \<and>
              length jobs' = length jobs \<and>
              (\<forall>k < length jobs. k \<noteq> i \<longrightarrow> jobs' ! k = jobs ! k) \<and>
              job_id (jobs' ! i) = jobId \<and>
              state (jobs' ! i) = Pending \<and> attempts (jobs' ! i) = 0 \<and>
              error (jobs' ! i) = None \<and> next_retry_at (jobs' ! i) = None)
    else retryFromDLQ now jobId jobs = Inl (NotFoundInDLQ jobId))"
proof (cases "findIndex (\<lambda>j. job_id j = jobId \<and> state j = Dead) jobs")
  case None
  then have "\<not> (\<exists>j \<in> set jobs. job_id j = jobId \<and> state j = Dead)"
    by (simp add: findIndex_None)
  with None show ?thesis
    by (simp add: retryFromDLQ_def)
next
  case (Some i)
  from findIndex_Some [OF Some]
  have i: "i < length jobs" "job_id (jobs ! i) = jobId" "state (jobs ! i) = Dead"
    "\<forall>k < i. \<not> (job_id (jobs ! k) = jobId \<and> state (jobs ! k) = Dead)"
    by simp_all
  then have ex: "\<exists>j \<in> set jobs. job_id j = jobId \<and> state j = Dead"
    using nth_mem by blast
  have "retryFromDLQ now jobId jobs =
          Inr (jobs[i := (jobs ! i)\<lparr> state := Pending, attempts := 0, next_retry_at := None,
                                      error := None, updated_at := now \<rparr>])"
    using Some by (simp add: retryFromDLQ_def)
  with i ex show ?thesis
    by (intro iffD2 [OF if_P] exI [of _ i]) auto
qed

theorem retryFromDLQ_revives_dead_only_witness:
  "(\<exists>jobs'. retryFromDLQ 9 ''j2'' [a_job ''j1'' Pending 0 3 5 1, a_job ''j2'' Dead 1 2 5 2] = Inr jobs'
      \<and> state (jobs' ! 1) = Pending \<and> attempts (jobs' ! 1) = 0
      \<and> error (jobs' ! 1) = None \<and> next_retry_at (jobs' ! 1) = None)
   \<and> retryFromDLQ 9 ''j1'' [a_job ''j1'' Pending 0 3 5 1, a_job ''j2'' Dead 1 2 5 2]
        = Inl (NotFoundInDLQ ''j1'')"
  using retryFromDLQ_revives_dead_only
    [of "[a_job ''j1'' Pending 0 3 5 1, a_job ''j2'' Dead 1 2 5 2]" "''j2''" 9]
    retryFromDLQ_revives_dead_only
    [of "[a_job ''j1'' Pending 0 3 5 1, a_job ''j2'' Dead 1 2 5 2]" "''j1''" 9]
  by (auto simp: a_job_def less_Suc_eq)


subsection \<open>Metrics\<close>

text \<open>The tenth that \<open>toFixed(1)\<close> prints.\<close>

lemma toFixed1_nonneg:
  assumes "0 \<le> p" and "p < 10 ^ 21"
  shows "toFixed1 (Num p) = Num (of_int \<lfloor>p * 10 + 1 / 2\<rfloor> / 10)"
  using assms by (simp add: toFixed1_def)

text \<open>A ratio of two array lengths times 100 lies on a rounding boundary of the tenths
  or at least \<open>1/(2t)\<close> away from it, which is more than the rounding error of the two
  double operations: the tenth printed is a nearest one to the exact percentage.\<close>

lemma tenth_of_ratio:
  fixes c t :: nat and p :: real and z :: int
  assumes t: "0 < t" "t < 2 ^ 32"
    and p: "\<bar>p - 100 * real c / real t\<bar> \<le> 164 / 2 ^ 53"
    and z: "of_int z \<le> 10 * p + 1 / 2" "10 * p + 1 / 2 < of_int z + 1"
  shows "\<bar>of_int z / 10 - 100 * real c / real t\<bar> \<le> 1 / 20"
proof -
  define E where "E = 100 * real c / real t"
  from t have tr: "0 < real t" "real t < 2 ^ 32"
    by (simp_all add: of_nat_less_numeral_power_cancel_iff)
  then have small: "10 * (164 / 2 ^ 53) * (2 * real t) < 1"
    by simp
  have up: "10 * E - of_int z - 1 / 2 \<le> 0"
  proof -
    define N :: int where "N = 2000 * int c - (2 * z + 1) * int t"
    have N: "(10 * E - of_int z - 1 / 2) * (2 * real t) = of_int N"
      using tr(1) by (simp add: N_def E_def field_simps)
    from p z(2) have "10 * E - of_int z - 1 / 2 < 10 * (164 / 2 ^ 53)"
      unfolding E_def by linarith
    with tr(1) have "(10 * E - of_int z - 1 / 2) * (2 * real t) < 10 * (164 / 2 ^ 53) * (2 * real t)"
      by (intro mult_strict_right_mono) simp_all
    with small N have "real_of_int N < 1" by linarith
    then have "N \<le> 0" by linarith
    then have "real_of_int N \<le> 0" by simp
    with N have "(10 * E - of_int z - 1 / 2) * (2 * real t) \<le> 0" by simp
    with tr(1) show ?thesis
      by (simp add: mult_le_0_iff)
  qed
  have low: "of_int z - 1 / 2 - 10 * E \<le> 0"
  proof -
    define M :: int where "M = (2 * z - 1) * int t - 2000 * int c"
    have M: "(of_int z - 1 / 2 - 10 * E) * (2 * real t) = of_int M"
      using tr(1) by (simp add: M_def E_def field_simps)
    from p z(1) have "of_int z - 1 / 2 - 10 * E \<le> 10 * (164 / 2 ^ 53)"
      unfolding E_def by linarith
    with tr(1) have "(of_int z - 1 / 2 - 10 * E) * (2 * real t) \<le> 10 * (164 / 2 ^ 53) * (2 * real t)"
      by (intro mult_right_mono) simp_all
    with small M have "real_of_int M < 1" by linarith
    then have "M \<le> 0" by linarith
    then have "real_of_int M \<le> 0" by simp
    with M have "(of_int z - 1 / 2 - 10 * E) * (2 * real t) \<le> 0" by simp
    with tr(1) show ?thesis
      by (simp add: mult_le_0_iff)
  qed
  from up low show ?thesis
    unfolding E_def by linarith
qed

lemma successRate_nearest_tenth:
  assumes d: "filter (\<lambda>j. state j = Completed) jobs \<noteq> []" and len: "length jobs < 2 ^ 32"
  shows "\<exists>z::int. successRate (getMetrics jobs) = Num (of_int z / 10) \<and>
           \<bar>of_int z / 10 - 100 * spec_success_rate jobs\<bar> \<le> 1 / 20"
proof -
  define c where "c = length (filter (\<lambda>j. state j = Completed) jobs)"
  define t where "t = length jobs"
  from d have c1: "1 \<le> c"
    by (simp add: c_def Suc_le_eq)
  have ct: "c \<le> t"
    by (simp add: c_def t_def)
  with c1 have t0: "0 < t" by simp
  from c1 ct t0 have r: "0 \<le> real c / real t" "real c / real t \<le> 1"
    by simp_all
  then have "\<bar>real c / real t\<bar> < 2 powi 1" by simp
  from fl_error [OF this] obtain q where q: "fl (real c / real t) = Num q"
    "\<bar>q - real c / real t\<bar> \<le> 1 / 9007199254740992"
    by auto
  from q(2) r have "\<bar>q * 100\<bar> < 128" by linarith
  then have "\<bar>q * 100\<bar> < 2 powi 7" by simp
  from fl_error [OF this] obtain p where p: "fl (q * 100) = Num p"
    "\<bar>p - q * 100\<bar> \<le> 1 / 140737488355328"
    by auto
  from q(2) p(2) have "\<bar>p - 100 * (real c / real t)\<bar> \<le> 164 / 9007199254740992"
    by linarith
  then have pe: "\<bar>p - 100 * real c / real t\<bar> \<le> 164 / 2 ^ 53"
    by simp
  from len have "real t \<le> 2 ^ 32"
    by (simp add: t_def of_nat_less_numeral_power_cancel_iff less_imp_le)
  with c1 t0 have "100 * 1 / 2 ^ 32 \<le> 100 * real c / real t"
    by (intro frac_le) simp_all
  then have "100 / 4294967296 \<le> 100 * (real c / real t)"
    by simp
  with q(2) p(2) have p0: "0 \<le> p" by linarith
  from q(2) p(2) r(2) have "p < 1000" by linarith
  then have "p < 10 ^ 21" by simp
  from toFixed1_nonneg [OF p0 this]
  have tf: "toFixed1 (Num p) = Num (of_int \<lfloor>p * 10 + 1 / 2\<rfloor> / 10)" .
  from t0 have "real t \<noteq> 0" by simp
  with d q(1) p(1) tf
  have s: "successRate (getMetrics jobs) = Num (of_int \<lfloor>p * 10 + 1 / 2\<rfloor> / 10)"
    by (simp add: getMetrics_def Let_def num_div_Num c_def [symmetric] t_def [symmetric])
  have "of_int \<lfloor>p * 10 + 1 / 2\<rfloor> \<le> 10 * p + 1 / 2" "10 * p + 1 / 2 < of_int \<lfloor>p * 10 + 1 / 2\<rfloor> + 1"
    by linarith+
  from tenth_of_ratio [OF t0 len [folded t_def] pe this]
  have "\<bar>of_int \<lfloor>p * 10 + 1 / 2\<rfloor> / 10 - 100 * real c / real t\<bar> \<le> 1 / 20" .
  moreover from t0 have "spec_success_rate jobs = real c / real t"
    by (simp add: spec_success_rate_def c_def t_def)
  ultimately show ?thesis using s by auto
qed

text \<open>The latencies and their sum are computed without rounding as long as no latency is
  negative and the sum stays within \<open>2^53\<close>.\<close>

lemma elem_le_sum_list:
  fixes xs :: "int list"
  shows "\<forall>x \<in> set xs. 0 \<le> x \<Longrightarrow> y \<in> set xs \<Longrightarrow> y \<le> sum_list xs"
proof (induction xs)
  case Nil
  then show ?case by simp
next
  case (Cons a xs)
  then have "0 \<le> sum_list xs" by (simp add: sum_list_nonneg)
  with Cons show ?case by auto
qed

lemma foldl_num_add_exact:
  "0 \<le> a \<Longrightarrow> \<forall>x \<in> set xs. 0 \<le> x \<Longrightarrow> a + sum_list xs \<le> 2 ^ 53 \<Longrightarrow>
     foldl num_add (Num (of_int a)) (map (\<lambda>x. Num (of_int x)) xs) = Num (of_int (a + sum_list xs))"
proof (induction xs arbitrary: a)
  case Nil
  then show ?case by simp
next
  case (Cons x xs)
  from Cons.prems have x: "0 \<le> x" and s: "0 \<le> sum_list xs"
    by (simp_all add: sum_list_nonneg)
  with Cons.prems have "\<bar>a + x\<bar> \<le> 2 ^ 53" by simp
  from fl_of_int [OF this] have "num_add (Num (of_int a)) (Num (of_int x)) = Num (of_int (a + x))"
    by simp
  moreover from Cons.prems x
  have "foldl num_add (Num (of_int (a + x))) (map (\<lambda>x. Num (of_int x)) xs)
          = Num (of_int (a + x + sum_list xs))"
    by (intro Cons.IH) (simp_all add: add.assoc)
  ultimately show ?case by (simp add: add.assoc)
qed

lemma latency_exact:
  assumes "c \<le> u" and "u - c \<le> 2 ^ 53"
  shows "num_sub (Num (of_int u)) (Num (of_int c)) = Num (of_int (u - c))"
proof -
  from assms have "\<bar>u - c\<bar> \<le> 2 ^ 53" by simp
  from fl_of_int [OF this] show ?thesis by simp
qed

lemma avgExecutionTime_near_mean:
  assumes d: "filter (\<lambda>j. state j = Completed) jobs \<noteq> []"
    and pos: "\<forall>j \<in> set (filter (\<lambda>j. state j = Completed) jobs). created_at j \<le> updated_at j"
    and sum: "(\<Sum>j\<leftarrow>filter (\<lambda>j. state j = Completed) jobs. updated_at j - created_at j) \<le> 2 ^ 53"
  shows "\<exists>a::int. avgExecutionTime (getMetrics jobs) = Num (of_int a) \<and>
           \<bar>of_int a - spec_avg_completion_latency jobs / 1000\<bar> \<le> 1 / 2 + 1 / 500"
proof -
  define comp where "comp = filter (\<lambda>j. state j = Completed) jobs"
  define lat where "lat = map (\<lambda>j. updated_at j - created_at j) comp"
  define S where "S = sum_list lat"
  define n where "n = length comp"
  from d have n1: "1 \<le> real n"
    by (simp add: n_def comp_def Suc_le_eq)
  from pos have l0: "\<forall>x \<in> set lat. 0 \<le> x"
    by (auto simp: lat_def comp_def)
  then have S0: "0 \<le> S"
    by (simp add: S_def sum_list_nonneg)
  from sum have S53: "S \<le> 2 ^ 53"
    by (simp add: S_def lat_def comp_def)
  have "num_sub (Num (of_int (updated_at j))) (Num (of_int (created_at j)))
          = Num (of_int (updated_at j - created_at j))" if "j \<in> set comp" for j
  proof -
    from that have "updated_at j - created_at j \<in> set lat" by (simp add: lat_def)
    with l0 elem_le_sum_list [of lat] S53 have "updated_at j - created_at j \<le> 2 ^ 53"
      unfolding S_def by fastforce
    moreover from that pos have "created_at j \<le> updated_at j" by (simp add: comp_def)
    ultimately show ?thesis by (rule latency_exact [rotated])
  qed
  then have "map (\<lambda>j. num_sub (Num (of_int (updated_at j))) (Num (of_int (created_at j)))) comp
               = map (\<lambda>x. Num (of_int x)) lat"
    by (simp add: lat_def)
  moreover from foldl_num_add_exact [of 0 lat] l0 S53
  have "foldl num_add (Num 0) (map (\<lambda>x. Num (of_int x)) lat) = Num (of_int S)"
    by (simp add: S_def)
  ultimately have total:
    "foldl num_add (Num 0)
       (map (\<lambda>j. num_sub (Num (of_int (updated_at j))) (Num (of_int (created_at j)))) comp)
     = Num (of_int S)"
    by simp
  from S0 S53 have Sr: "0 \<le> real_of_int S" "real_of_int S \<le> 2 ^ 53"
    by (simp_all add: of_int_le_numeral_power_cancel_iff)
  with n1 have m: "0 \<le> real_of_int S / real n" "real_of_int S / real n \<le> 2 ^ 53"
    by (simp_all add: field_simps)
  then have "\<bar>real_of_int S / real n\<bar> < 2 powi 54" by simp
  from fl_error [OF this] obtain y where y: "fl (real_of_int S / real n) = Num y"
    "\<bar>y - real_of_int S / real n\<bar> \<le> 1"
    by auto
  from y(2) m have "\<bar>y / 1000\<bar> < 2 powi 44" by simp
  from fl_error [OF this] obtain v where v: "fl (y / 1000) = Num v"
    "\<bar>v - y / 1000\<bar> \<le> 1 / 1024"
    by auto
  define a where "a = \<lfloor>v + 1 / 2\<rfloor>"
  have "\<bar>real_of_int a - v\<bar> \<le> 1 / 2"
    unfolding a_def by linarith
  moreover define mu where "mu = real_of_int S / real n"
  ultimately have "\<bar>real_of_int a - mu / 1000\<bar> \<le> 1 / 2 + 1 / 500"
    using y(2) v(2) by linarith
  then have "\<bar>real_of_int a - real_of_int S / real n / 1000\<bar> \<le> 1 / 2 + 1 / 500"
    by (simp only: mu_def)
  moreover from d have "spec_avg_completion_latency jobs = real_of_int S / real n"
    by (simp add: spec_avg_completion_latency_def Let_def S_def lat_def n_def comp_def)
  moreover from n1 have "real n \<noteq> 0" by simp
  with d total y(1) v(1) have "avgExecutionTime (getMetrics jobs) = Num (of_int a)"
    by (simp add: getMetrics_def Let_def num_div_Num math_round_def a_def
        comp_def [symmetric] n_def [symmetric])
  ultimately show ?thesis by auto
qed

lemma avgExecutionTime_completed_only:
  "avgExecutionTime (getMetrics jobs)
     = avgExecutionTime (getMetrics (filter (\<lambda>j. state j = Completed) jobs))"
  by (simp add: getMetrics_def Let_def)

text \<open>
  Claim C8, as stated (\<open>success_rate = completed/total\<close>), fails: with one job completed
  out of two the reported rate is \<open>50.0\<close>, not \<open>1/2\<close>.
\<close>

theorem getMetrics_success_rate_counterexample:
  "successRate (getMetrics [a_job ''j1'' Completed 0 3 5 1000, a_job ''j2'' Pending 0 3 5 2000])
     = Num 50
   \<and> spec_success_rate [a_job ''j1'' Completed 0 3 5 1000, a_job ''j2'' Pending 0 3 5 2000] = 1 / 2"
proof -
  have "fl (1 / 2) = Num (1 / 2)"
    using fl_exact [of "- 1" "1 / 2" 4503599627370496] by simp
  then show ?thesis
    by (simp add: getMetrics_def spec_success_rate_def a_job_def toFixed1_def num_div_Num
        fl_numeral Let_def)
qed

text \<open>The percentage is rounded from the double, not from the exact ratio: with 23 jobs
  of 80 completed, \<open>(23 / 80) * 100\<close> is the double just below \<open>28.75\<close> and \<open>toFixed(1)\<close>
  prints \<open>28.7\<close>, where the exact \<open>28.75\<close> would print as \<open>28.8\<close>.\<close>

lemma getMetrics_rate_of_the_double:
  "successRate (getMetrics (replicate 23 (a_job ''c'' Completed 0 3 5 1000) @
                            replicate 57 (a_job ''p'' Pending 0 3 5 2000))) = Num (287 / 10)
   \<and> toFixed1 (Num (100 * (23 / 80))) = Num (288 / 10)"
proof -
  have a: "fl (23 / 80) = Num (2589569785738035 / 9007199254740992)"
    using fl_eqI [of "- 2" "23 / 80" 5179139571476070] by (simp add: round_half_even_def)
  have b: "fl (2589569785738035 / 9007199254740992 * 100)
             = Num (8092405580431359 / 281474976710656)"
    using fl_eqI [of 4 "2589569785738035 / 9007199254740992 * 100" 8092405580431359]
    by (simp add: round_half_even_def)
  from a b show ?thesis
    by (simp add: getMetrics_def a_job_def toFixed1_def num_div_Num Let_def)
qed

text \<open>One job of two completed, three and a half seconds after it was created: the rate
  is \<open>50.0\<close> and the average is rounded up to 4 seconds.\<close>

lemma getMetrics_sample:
  "getMetrics [(a_job ''j1'' Completed 0 3 5 1000)\<lparr> updated_at := 4500 \<rparr>,
               a_job ''j2'' Pending 0 3 5 2000]
     = \<lparr> totalJobs = 2, completedJobs = 1, avgExecutionTime = Num 4, successRate = Num 50 \<rparr>"
proof -
  have a: "fl (1 / 2) = Num (1 / 2)"
    using fl_exact [of "- 1" "1 / 2" 4503599627370496] by simp
  have b: "fl (7 / 2) = Num (7 / 2)"
    using fl_exact [of 1 "7 / 2" 7881299347898368] by simp
  from a b show ?thesis
    by (simp add: getMetrics_def a_job_def toFixed1_def math_round_def num_div_Num fl_numeral
        Let_def)
qed

text \<open>
  Claim C8, amended. \<open>getMetrics\<close> reports the number of jobs and of completed jobs.
  When no job is completed, and so when the store is empty, the success rate and the
  average latency are both zero. Otherwise the success rate is a percentage with one
  decimal: a multiple of \<open>0.1\<close> within \<open>0.05\<close> of \<open>100 * completed/total\<close> (for a store of
  fewer than \<open>2^32\<close> jobs, the most an array holds). The average latency depends on the
  completed jobs only; it is a whole number of seconds, and when no completed job has
  \<open>updated_at\<close> before \<open>created_at\<close> and the latencies sum to at most \<open>2^53\<close> ms it is
  within \<open>0.502\<close> of the mean of \<open>updated_at - created_at\<close> over the completed jobs,
  taken in seconds.
\<close>

theorem getMetrics_reports_percentage_and_seconds:
  "(let completed = filter (\<lambda>j. state j = Completed) jobs; m = getMetrics jobs in
     totalJobs m = length jobs
     \<and> completedJobs m = length completed
     \<and> (completed = [] \<longrightarrow> successRate m = Num 0 \<and> avgExecutionTime m = Num 0)
     \<and> (completed \<noteq> [] \<and> length jobs < 2 ^ 32 \<longrightarrow>
          (\<exists>z::int. successRate m = Num (of_int z / 10) \<and>
                     \<bar>of_int z / 10 - 100 * spec_success_rate jobs\<bar> \<le> 1 / 20))
     \<and> avgExecutionTime m = avgExecutionTime (getMetrics completed)
     \<and> (completed \<noteq> [] \<and> (\<forall>j \<in> set completed. created_at j \<le> updated_at j) \<and>
          (\<Sum>j\<leftarrow>completed. updated_at j - created_at j) \<le> 2 ^ 53 \<longrightarrow>
          (\<exists>a::int. avgExecutionTime m = Num (of_int a) \<and>
                     \<bar>of_int a - spec_avg_completion_latency jobs / 1000\<bar> \<le> 1 / 2 + 1 / 500)))"
proof -
  have "totalJobs (getMetrics jobs) = length jobs"
    and "completedJobs (getMetrics jobs) = length (filter (\<lambda>j. state j = Completed) jobs)"
    and "filter (\<lambda>j. state j = Completed) jobs = [] \<longrightarrow>
           successRate (getMetrics jobs) = Num 0 \<and> avgExecutionTime (getMetrics jobs) = Num 0"
    by (simp_all add: getMetrics_def Let_def)
  with successRate_nearest_tenth [of jobs] avgExecutionTime_near_mean [of jobs]
    avgExecutionTime_completed_only [of jobs]
  show ?thesis
    unfolding Let_def by blast
qed

theorem getMetrics_reports_percentage_and_seconds_witness:
  "totalJobs (getMetrics [(a_job ''j1'' Completed 0 3 5 1000)\<lparr> updated_at := 4500 \<rparr>,
                          a_job ''j2'' Pending 0 3 5 2000]) = 2
   \<and> completedJobs (getMetrics [(a_job ''j1'' Completed 0 3 5 1000)\<lparr> updated_at := 4500 \<rparr>,
                                a_job ''j2'' Pending 0 3 5 2000]) = 1
   \<and> (\<exists>z::int. successRate (getMetrics [(a_job ''j1'' Completed 0 3 5 1000)\<lparr> updated_at := 4500 \<rparr>,
                                        a_job ''j2'' Pending 0 3 5 2000]) = Num (of_int z / 10)
         \<and> \<bar>real_of_int z / 10 - 50\<bar> \<le> 1 / 20)
   \<and> (\<exists>a::int. avgExecutionTime (getMetrics [(a_job ''j1'' Completed 0 3 5 1000)\<lparr> updated_at := 4500 \<rparr>,
                                             a_job ''j2'' Pending 0 3 5 2000]) = Num (of_int a)
         \<and> \<bar>real_of_int a - 7 / 2\<bar> \<le> 1 / 2 + 1 / 500)
   \<and> successRate (getMetrics [a_job ''j2'' Pending 0 3 5 2000]) = Num 0
   \<and> avgExecutionTime (getMetrics []) = Num 0"
proof -
  let ?w = "[(a_job ''j1'' Completed 0 3 5 1000)\<lparr> updated_at := 4500 \<rparr>,
             a_job ''j2'' Pending 0 3 5 2000]"
  have f: "filter (\<lambda>j. state j = Completed) ?w = [(a_job ''j1'' Completed 0 3 5 1000)\<lparr> updated_at := 4500 \<rparr>]"
    by (simp add: a_job_def)
  have r: "100 * spec_success_rate ?w = 50"
    by (simp add: spec_success_rate_def a_job_def)
  have l: "spec_avg_completion_latency ?w / 1000 = 7 / 2"
    by (simp add: spec_avg_completion_latency_def a_job_def)
  have h: "\<forall>j \<in> set [(a_job ''j1'' Completed 0 3 5 1000)\<lparr> updated_at := 4500 \<rparr>].
             created_at j \<le> updated_at j"
    "(\<Sum>j\<leftarrow>[(a_job ''j1'' Completed 0 3 5 1000)\<lparr> updated_at := 4500 \<rparr>].
         updated_at j - created_at j) \<le> 2 ^ 53"
    by (simp_all add: a_job_def)
  have n: "[(a_job ''j1'' Completed 0 3 5 1000)\<lparr> updated_at := 4500 \<rparr>] \<noteq> []"
    "length ?w < 2 ^ 32"
    by simp_all
  note t = getMetrics_reports_percentage_and_seconds [of ?w, unfolded Let_def f r l]
  from t have "totalJobs (getMetrics ?w) = length ?w"
    "completedJobs (getMetrics ?w) = length [(a_job ''j1'' Completed 0 3 5 1000)\<lparr> updated_at := 4500 \<rparr>]"
    by blast+
  then have "totalJobs (getMetrics ?w) = 2" "completedJobs (getMetrics ?w) = 1"
    by simp_all
  moreover from t n
  have "\<exists>z::int. successRate (getMetrics ?w) = Num (of_int z / 10) \<and> \<bar>real_of_int z / 10 - 50\<bar> \<le> 1 / 20"
    by blast
  moreover from t n h
  have "\<exists>a::int. avgExecutionTime (getMetrics ?w) = Num (of_int a) \<and>
         \<bar>real_of_int a - 7 / 2\<bar> \<le> 1 / 2 + 1 / 500"
    by blast
  moreover from getMetrics_reports_percentage_and_seconds [of "[a_job ''j2'' Pending 0 3 5 2000]"]
  have "successRate (getMetrics [a_job ''j2'' Pending 0 3 5 2000]) = Num 0"
    by (simp add: a_job_def Let_def)
  moreover from getMetrics_reports_percentage_and_seconds [of "[]"]
  have "avgExecutionTime (getMetrics []) = Num 0"
    by (simp add: Let_def)
  ultimately show ?thesis by blast
qed


subsection \<open>Setting a configuration value\<close>

lemma fl_not_NaN [simp]: "fl x \<noteq> NaN"
  by (simp add: fl_def Let_def)

lemma negate_NaN_iff [simp]: "negate a = NaN \<longleftrightarrow> a = NaN"
  by (cases a) (simp_all add: negate_def)

lemma is_digit_not_other:
  "is_digit c \<Longrightarrow> \<not> is_space c \<and> c \<noteq> CHR ''+'' \<and> c \<noteq> CHR ''-'' \<and> c \<noteq> CHR ''I'' \<and> c \<noteq> CHR ''.''"
  by (auto simp: is_digit_def is_space_def)

text \<open>\<open>parseFloat\<close> reads a number exactly from the strings that begin with a literal.\<close>

lemma unsigned_literal_NaN_iff: "unsigned_literal s = NaN \<longleftrightarrow> \<not> starts_number s"
proof (cases "take 8 s = ''Infinity''")
  case True
  then show ?thesis
    by (simp add: unsigned_literal_def starts_number_def)
next
  case False
  show ?thesis
  proof (cases s)
    case Nil
    with False show ?thesis
      by (simp add: unsigned_literal_def starts_number_def)
  next
    case (Cons c r)
    show ?thesis
    proof (cases "is_digit c")
      case True
      with False Cons show ?thesis
        by (simp add: unsigned_literal_def starts_number_def Let_def)
    next
      case nd: False
      show ?thesis
      proof (cases r)
        case Nil
        with False Cons nd show ?thesis
          by (simp add: unsigned_literal_def starts_number_def Let_def)
      next
        case (Cons d r')
        with False \<open>s = c # r\<close> nd show ?thesis
          by (simp add: unsigned_literal_def starts_number_def Let_def)
      qed
    qed
  qed
qed

lemma parseFloat_NaN_iff: "parseFloat val = NaN \<longleftrightarrow> \<not> has_numeric_prefix val"
proof (cases "dropWhile is_space val")
  case Nil
  then show ?thesis
    by (simp only: parseFloat_def has_numeric_prefix_def list.case) simp
next
  case (Cons c r)
  then show ?thesis
    by (simp only: parseFloat_def has_numeric_prefix_def list.case)
       (simp add: unsigned_literal_NaN_iff)
qed

lemma unsigned_literal_digits:
  assumes ds: "ds \<noteq> []" "\<forall>c \<in> set ds. is_digit c"
    and t: "case t of [] \<Rightarrow> True | c # _ \<Rightarrow> \<not> is_digit c \<and> c \<notin> {CHR ''.'', CHR ''e'', CHR ''E''}"
  shows "unsigned_literal (ds @ t) = fl (real (digits_val ds))"
proof -
  from ds obtain d ds' where d: "ds = d # ds'" "is_digit d"
    by (cases ds) auto
  then have inf: "take 8 (ds @ t) \<noteq> ''Infinity''"
    using is_digit_not_other [of d] by auto
  from t have tw: "takeWhile is_digit t = []" and dw: "dropWhile is_digit t = t"
    by (cases t; simp)+
  from ds(2) have ip: "takeWhile is_digit (ds @ t) = ds" and r1: "dropWhile is_digit (ds @ t) = t"
    by (simp_all add: takeWhile_append2 dropWhile_append2 tw dw)
  from t have nodot: "(case t of [] \<Rightarrow> False | c # _ \<Rightarrow> c = CHR ''.'') = False"
    by (cases t) auto
  from t have ex: "exponent_part t = 0"
    by (cases t) (auto simp: exponent_part_def)
  from inf ds(1) show ?thesis
    by (simp add: unsigned_literal_def ip r1 nodot ex pow10_def Let_def)
qed

lemma parseFloat_digits:
  assumes ds: "ds \<noteq> []" "\<forall>c \<in> set ds. is_digit c" and v: "digits_val ds \<le> 2 ^ 53"
    and t: "case t of [] \<Rightarrow> True | c # _ \<Rightarrow> \<not> is_digit c \<and> c \<notin> {CHR ''.'', CHR ''e'', CHR ''E''}"
  shows "parseFloat (ds @ t) = Num (real (digits_val ds))"
proof -
  from ds obtain d ds' where d: "ds = d # ds'" "is_digit d"
    by (cases ds) auto
  with is_digit_not_other [of d] have "dropWhile is_space (ds @ t) = ds @ t"
    by simp
  moreover from d is_digit_not_other [of d] have "hd (ds @ t) \<noteq> CHR ''+''" "hd (ds @ t) \<noteq> CHR ''-''"
    by simp_all
  ultimately have "parseFloat (ds @ t) = unsigned_literal (ds @ t)"
    using d(1) by (simp add: parseFloat_def)
  moreover from v have "\<bar>int (digits_val ds)\<bar> \<le> 2 ^ 53"
    by (simp add: of_nat_le_numeral_power_cancel_iff)
  from fl_of_int [OF this] have "fl (real (digits_val ds)) = Num (real (digits_val ds))"
    by simp
  ultimately show ?thesis
    using unsigned_literal_digits [OF ds t] by simp
qed

text \<open>
  Claim C9, as stated (every non-numeric value is rejected), fails: \<open>5abc\<close> is accepted
  and stored as \<open>5\<close>.
\<close>

theorem config_set_prefix_counterexample:
  "config_set ''max-retries'' ''5abc'' Map.empty = Inr [''max-retries'' \<mapsto> JNumber 5]"
  by (simp add: config_set_def validKeys_def isNaN_def le_zero_def stringify_def parseFloat_def
      unsigned_literal_def is_space_def is_digit_def digits_val_def digit_val_def
      exponent_part_def pow10_def fl_numeral Let_def)

text \<open>
  Claim C9, amended. \<open>set\<close> fails with its invalid-key error for every key other than
  \<open>max-retries\<close> and \<open>backoff-base\<close>. For one of these keys it fails with its
  positive-number error when \<open>parseFloat\<close> reads from the value no number, minus
  infinity, or a number that is zero or negative, and nothing is written; \<open>parseFloat\<close>
  reads no number exactly when the value does not begin, after white space and an
  optional sign, with \<open>Infinity\<close>, a digit, or a point followed by a digit. Every other
  value is accepted: the number read is stored under the key, as \<open>null\<close> when it is
  infinity, and the other keys are kept. So a value that only begins with a number is
  accepted: decimal digits that denote a positive integer up to \<open>2^53\<close>, followed by any
  text that does not begin with a digit, a point or the letter e, are stored as that
  integer.
\<close>

theorem config_set_validation:
  "(key \<notin> {''max-retries'', ''backoff-base''} \<longrightarrow>
      config_set key val config = Inl InvalidConfigKey)
   \<and> (key \<in> {''max-retries'', ''backoff-base''} \<longrightarrow>
      config_set key val config =
        (case parseFloat val of
           NaN \<Rightarrow> Inl NotPositiveNumber
         | NegInf \<Rightarrow> Inl NotPositiveNumber
         | PosInf \<Rightarrow> Inr (config(key \<mapsto> JNull))
         | Num r \<Rightarrow> if r \<le> 0 then Inl NotPositiveNumber else Inr (config(key \<mapsto> JNumber r))))
   \<and> (parseFloat val = NaN \<longleftrightarrow> \<not> has_numeric_prefix val)
   \<and> (key \<in> {''max-retries'', ''backoff-base''} \<and>
        ds \<noteq> [] \<and> (\<forall>c \<in> set ds. is_digit c) \<and> 0 < digits_val ds \<and> digits_val ds \<le> 2 ^ 53 \<and>
        (case t of [] \<Rightarrow> True | c # _ \<Rightarrow> \<not> is_digit c \<and> c \<notin> {CHR ''.'', CHR ''e'', CHR ''E''}) \<longrightarrow>
      config_set key (ds @ t) config = Inr (config(key \<mapsto> JNumber (real (digits_val ds)))))"
proof (intro conjI impI)
  assume "key \<notin> {''max-retries'', ''backoff-base''}"
  then show "config_set key val config = Inl InvalidConfigKey"
    by (simp add: config_set_def validKeys_def)
next
  assume "key \<in> {''max-retries'', ''backoff-base''}"
  then show "config_set key val config =
        (case parseFloat val of
           NaN \<Rightarrow> Inl NotPositiveNumber
         | NegInf \<Rightarrow> Inl NotPositiveNumber
         | PosInf \<Rightarrow> Inr (config(key \<mapsto> JNull))
         | Num r \<Rightarrow> if r \<le> 0 then Inl NotPositiveNumber else Inr (config(key \<mapsto> JNumber r)))"
    by (cases "parseFloat val")
       (auto simp: config_set_def validKeys_def isNaN_def le_zero_def stringify_def Let_def)
next
  show "parseFloat val = NaN \<longleftrightarrow> \<not> has_numeric_prefix val"
    by (rule parseFloat_NaN_iff)
next
  assume a: "key \<in> {''max-retries'', ''backoff-base''} \<and>
        ds \<noteq> [] \<and> (\<forall>c \<in> set ds. is_digit c) \<and> 0 < digits_val ds \<and> digits_val ds \<le> 2 ^ 53 \<and>
        (case t of [] \<Rightarrow> True | c # _ \<Rightarrow> \<not> is_digit c \<and> c \<notin> {CHR ''.'', CHR ''e'', CHR ''E''})"
  then have p: "parseFloat (ds @ t) = Num (real (digits_val ds))"
    by (intro parseFloat_digits) simp_all
  with a show "config_set key (ds @ t) config = Inr (config(key \<mapsto> JNumber (real (digits_val ds))))"
    by (auto simp: config_set_def validKeys_def isNaN_def le_zero_def stringify_def Let_def)
qed

theorem config_set_validation_witness:
  "config_set ''timeout'' ''5'' [''max-retries'' \<mapsto> JNumber 3] = Inl InvalidConfigKey
   \<and> config_set ''max-retries'' ''abc'' [''max-retries'' \<mapsto> JNumber 3] = Inl NotPositiveNumber
   \<and> config_set ''max-retries'' ''0'' [''max-retries'' \<mapsto> JNumber 3] = Inl NotPositiveNumber
   \<and> config_set ''backoff-base'' ''-2'' [''max-retries'' \<mapsto> JNumber 3] = Inl NotPositiveNumber
   \<and> config_set ''backoff-base'' ''1.5'' [''max-retries'' \<mapsto> JNumber 3]
       = Inr [''max-retries'' \<mapsto> JNumber 3, ''backoff-base'' \<mapsto> JNumber (3 / 2)]
   \<and> config_set ''backoff-base'' ''Infinity'' [''max-retries'' \<mapsto> JNumber 3]
       = Inr [''max-retries'' \<mapsto> JNumber 3, ''backoff-base'' \<mapsto> JNull]
   \<and> config_set ''backoff-base'' ''3 seconds'' [''max-retries'' \<mapsto> JNumber 3]
       = Inr [''max-retries'' \<mapsto> JNumber 3, ''backoff-base'' \<mapsto> JNumber 3]"
proof -
  let ?cfg = "[''max-retries'' \<mapsto> JNumber 3]"
  note defs = parseFloat_def unsigned_literal_def is_space_def is_digit_def negate_def
    digits_val_def digit_val_def exponent_part_def pow10_def Let_def
  have 1: "config_set ''timeout'' ''5'' ?cfg = Inl InvalidConfigKey"
    using config_set_validation [of "''timeout''" "''5''" ?cfg] by simp
  have "\<not> has_numeric_prefix ''abc''"
    by (simp add: has_numeric_prefix_def starts_number_def is_space_def is_digit_def)
  with config_set_validation [of "''max-retries''" "''abc''" ?cfg]
  have 2: "config_set ''max-retries'' ''abc'' ?cfg = Inl NotPositiveNumber"
    by simp
  have "parseFloat ''0'' = Num 0"
    by (simp add: defs)
  with config_set_validation [of "''max-retries''" "''0''" ?cfg]
  have 3: "config_set ''max-retries'' ''0'' ?cfg = Inl NotPositiveNumber"
    by simp
  have "parseFloat ''-2'' = Num (- 2)"
    by (simp add: defs fl_numeral)
  with config_set_validation [of "''backoff-base''" "''-2''" ?cfg]
  have 4: "config_set ''backoff-base'' ''-2'' ?cfg = Inl NotPositiveNumber"
    by simp
  have "fl (3 / 2) = Num (3 / 2)"
    using fl_exact [of 0 "3 / 2" 6755399441055744] by simp
  then have "parseFloat ''1.5'' = Num (3 / 2)"
    by (simp add: defs)
  with config_set_validation [of "''backoff-base''" "''1.5''" ?cfg]
  have 5: "config_set ''backoff-base'' ''1.5'' ?cfg
       = Inr [''max-retries'' \<mapsto> JNumber 3, ''backoff-base'' \<mapsto> JNumber (3 / 2)]"
    by simp
  have "parseFloat ''Infinity'' = PosInf"
    by (simp add: defs)
  with config_set_validation [of "''backoff-base''" "''Infinity''" ?cfg]
  have 6: "config_set ''backoff-base'' ''Infinity'' ?cfg
       = Inr [''max-retries'' \<mapsto> JNumber 3, ''backoff-base'' \<mapsto> JNull]"
    by simp
  have "config_set ''backoff-base'' (''3'' @ '' seconds'') ?cfg
          = Inr (?cfg(''backoff-base'' \<mapsto> JNumber (real (digits_val ''3''))))"
    using config_set_validation [of "''backoff-base''" "''3 seconds''" ?cfg "''3''" "'' seconds''",
        THEN conjunct2, THEN conjunct2, THEN conjunct2]
    by (simp add: is_digit_def digits_val_def digit_val_def)
  then have 7: "config_set ''backoff-base'' ''3 seconds'' ?cfg
       = Inr [''max-retries'' \<mapsto> JNumber 3, ''backoff-base'' \<mapsto> JNumber 3]"
    by (simp add: digits_val_def digit_val_def)
  from 1 2 3 4 5 6 7 show ?thesis by blast
qed


subsection \<open>Unknown job ids\<close>

text \<open>
  Claim C10. \<open>updateJobState\<close>, \<open>setJobError\<close> and \<open>incrementAttempts\<close> called with an
  id that no job of the store has raise nothing and return the store as it was; \<open>cancelJob\<close>
  and \<open>retryFromDLQ\<close> raise their not-found errors for the same id.
\<close>

theorem missing_id_is_silent_noop:
  assumes "\<forall>j \<in> set jobs. job_id j \<noteq> jobId"
  shows "updateJobState now jobId st err jobs = jobs
       \<and> setJobError now jobId msg jobs = jobs
       \<and> incrementAttempts pow now jobId backoffBase jobs = Inr jobs
       \<and> cancelJob now jobId jobs = Inl (JobNotFound jobId)
       \<and> retryFromDLQ now jobId jobs = Inl (NotFoundInDLQ jobId)"
proof -
  from assms have "findIndex (\<lambda>j. job_id j = jobId) jobs = None"
    by (simp add: findIndex_None)
  moreover from assms have "findIndex (\<lambda>j. job_id j = jobId \<and> state j = Dead) jobs = None"
    by (simp add: findIndex_None)
  ultimately show ?thesis
    by (simp add: updateJobState_def setJobError_def incrementAttempts_def cancelJob_def
        retryFromDLQ_def)
qed

theorem missing_id_is_silent_noop_witness:
  "updateJobState 5 ''ghost'' Completed None [a_job ''j1'' Processing 0 3 5 1] = [a_job ''j1'' Processing 0 3 5 1]
 \<and> setJobError 5 ''ghost'' (Some ''boom'') [a_job ''j1'' Processing 0 3 5 1] = [a_job ''j1'' Processing 0 3 5 1]
 \<and> incrementAttempts exact_pow 5 ''ghost'' (Num 2) [a_job ''j1'' Processing 0 3 5 1] = Inr [a_job ''j1'' Processing 0 3 5 1]
 \<and> cancelJob 5 ''ghost'' [a_job ''j1'' Processing 0 3 5 1] = Inl (JobNotFound ''ghost'')
 \<and> retryFromDLQ 5 ''ghost'' [a_job ''j1'' Processing 0 3 5 1] = Inl (NotFoundInDLQ ''ghost'')"
  using missing_id_is_silent_noop [of "[a_job ''j1'' Processing 0 3 5 1]" "''ghost''" 5 Completed None "Some ''boom''" exact_pow "Num 2"]
  by (simp add: a_job_def)


end
